theory Spec2Isabelle
  imports Complex_Main
begin

section \<open>Vectors and rigid bodies\<close>

text \<open>
  The game (\<^verbatim>\<open>src/SnookerGame.tsx\<close>) drives the physics engine Matter.js. JavaScript
  numbers are modelled as real numbers; a \<^verbatim>\<open>Matter.Vector\<close> \<^verbatim>\<open>{x, y}\<close> is a pair.
\<close>

type_synonym vector = "real \<times> real"

definition magnitude :: "vector \<Rightarrow> real" where
  "magnitude v = sqrt (fst v * fst v + snd v * snd v)"

definition sub :: "vector \<Rightarrow> vector \<Rightarrow> vector" where
  "sub a b = (fst a - fst b, snd a - snd b)"

text \<open>
  The fields of a \<^verbatim>\<open>Matter.Body\<close> that the game reads or writes. Quantities that the
  engine derives from the mass (inverse mass, inertia) are not modelled.
\<close>

record body =
  label :: string
  position :: vector
  velocity :: vector
  angularVelocity :: real
  force :: vector
  torque :: real
  isStatic :: bool
  isSensor :: bool
  restitution :: real
  friction :: real
  frictionAir :: real
  density :: real
  area :: real
  mass :: real

text \<open>The setters of \<^verbatim>\<open>Matter.Body\<close> used by the game.\<close>

definition setPosition :: "body \<Rightarrow> vector \<Rightarrow> body" where
  "setPosition b p = b\<lparr>position := p\<rparr>"

definition setVelocity :: "body \<Rightarrow> vector \<Rightarrow> body" where
  "setVelocity b v = b\<lparr>velocity := v\<rparr>"

definition setAngularVelocity :: "body \<Rightarrow> real \<Rightarrow> body" where
  "setAngularVelocity b a = b\<lparr>angularVelocity := a\<rparr>"

text \<open>\<^verbatim>\<open>Body.setDensity\<close> sets the density and re-derives the mass as density times area.\<close>

definition setDensity :: "body \<Rightarrow> real \<Rightarrow> body" where
  "setDensity b dn = b\<lparr>density := dn, mass := dn * area b\<rparr>"

text \<open>
  \<^verbatim>\<open>Body.applyForce(body, position, force)\<close> accumulates the force and the torque of its
  offset from the centre of the body.
\<close>

definition applyForce :: "body \<Rightarrow> vector \<Rightarrow> vector \<Rightarrow> body" where
  "applyForce b p f =
     (let offset = sub p (position b)
      in b\<lparr>force := (fst (force b) + fst f, snd (force b) + snd f),
            torque := torque b + (fst offset * snd f - snd offset * fst f)\<rparr>)"

section \<open>The state of the component\<close>

text \<open>
  Bodies are JavaScript objects shared between the engine's world and the component's
  refs (\<^verbatim>\<open>cueBallRef\<close> keeps the cue ball while it is out of the world), so they live in
  a store indexed by the body's \<^verbatim>\<open>id\<close>; \<open>nextId\<close> is the engine's id counter.
  \<open>engineRef\<close> holds the body list of \<^verbatim>\<open>engineRef.current.world\<close>, or \<open>None\<close> before the
  component is mounted. The other fields are the refs and the React state of the component
  that the simulation uses.
\<close>

record game =
  heap :: "nat \<Rightarrow> body"
  nextId :: nat
  engineRef :: "nat list option"
  cueBallRef :: "nat option"
  allBallsRef :: "nat list"
  isDraggingRef :: bool
  dragStartRef :: "vector option"
  cueLineRef :: "(vector \<times> vector) option"
  lastForceRef :: "vector option"
  rollingFrictionRef :: real
  pottedBalls :: "string list"
  shotPower :: int
  isAiming :: bool
  isCueBallPotted :: bool

text \<open>\<^verbatim>\<open>!b.isStatic && !b.isSensor\<close>, the filter of every pass over the world.\<close>

definition dynamic :: "body \<Rightarrow> bool" where
  "dynamic b \<longleftrightarrow> \<not> isStatic b \<and> \<not> isSensor b"

text \<open>\<^verbatim>\<open>ids.forEach(b => f(b))\<close> where \<open>f\<close> mutates the body in place.\<close>

definition forEach :: "(body \<Rightarrow> body) \<Rightarrow> nat list \<Rightarrow> (nat \<Rightarrow> body) \<Rightarrow> (nat \<Rightarrow> body)" where
  "forEach f ids h = fold (\<lambda>i h'. h'(i := f (h' i))) ids h"

section \<open>The friction pass\<close>

text \<open>The body of the \<^verbatim>\<open>beforeUpdate\<close> callback, for one body.\<close>

definition frictionBody :: "real \<Rightarrow> body \<Rightarrow> body" where
  "frictionBody rf b =
     (let speed = magnitude (velocity b)
      in if speed > 0 \<and> speed < 0.15
         then setAngularVelocity (setVelocity b (0, 0)) 0
         else if rf > 0 \<and> speed > 0.15
         then (let newSpeed = max 0 (speed - rf);
                   scale = newSpeed / speed
               in setVelocity b (fst (velocity b) * scale, snd (velocity b) * scale))
         else b)"

definition frictionPass :: "game \<Rightarrow> game" where
  "frictionPass g =
     (case engineRef g of
        None \<Rightarrow> g
      | Some w \<Rightarrow>
          g\<lparr>heap := forEach (frictionBody (rollingFrictionRef g))
                      (filter (\<lambda>i. dynamic (heap g i)) w) (heap g)\<rparr>)"

section \<open>Table geometry and the rack\<close>

definition TABLE_WIDTH :: real where "TABLE_WIDTH = 1200"
definition TABLE_HEIGHT :: real where "TABLE_HEIGHT = 600"
definition CUSHION :: real where "CUSHION = 40"
definition BALL_R :: real where "BALL_R = 10"

text \<open>
  \<^verbatim>\<open>createBall(x, y, color, label)\<close>: a circle body with \<^verbatim>\<open>BALL_OPTS\<close> (the defaults of
  the physics settings). The colour only feeds the renderer and is left out. The area that
  Matter.js computes for the circle's polygon is the parameter \<open>a\<close>; the engine derives the
  mass as density times area.
\<close>

definition createBall :: "real \<Rightarrow> real \<Rightarrow> real \<Rightarrow> string \<Rightarrow> body" where
  "createBall a px py l =
     \<lparr>label = l, position = (px, py), velocity = (0, 0), angularVelocity = 0,
      force = (0, 0), torque = 0, isStatic = False, isSensor = False,
      restitution = 0.85, friction = 0.05, frictionAir = 0.018, density = 0.005,
      area = a, mass = 0.005 * a\<rparr>"

text \<open>Decimal rendering of the ball index in the template string \<^verbatim>\<open>`red-${ballIndex++}`\<close>.\<close>

definition digit :: "nat \<Rightarrow> char" where
  "digit n = ''0123456789'' ! n"

fun toString :: "nat \<Rightarrow> string" where
  "toString n = (if n < 10 then [digit n] else toString (n div 10) @ [digit (n mod 10)])"

declare toString.simps [simp del]

text \<open>
  \<^verbatim>\<open>createBalls()\<close>: the cue ball, the triangle of reds (rows 0 to 4, columns 0 to row,
  numbered by a running counter) and the six colours, in the order they are pushed.
\<close>

definition createBalls :: "real \<Rightarrow> body \<times> body list" where
  "createBalls a =
     (let tableL = CUSHION;
          tableT = CUSHION;
          cy = tableT + TABLE_HEIGHT / 2;
          cueBall = createBall a (tableL + TABLE_WIDTH * 0.25) cy ''cue'';
          startX = tableL + TABLE_WIDTH * 0.68;
          startY = cy;
          spacing = BALL_R * 2.15;
          reds = map (\<lambda>(ballIndex, (px, py)). createBall a px py (''red-'' @ toString ballIndex))
                   (enumerate 0
                     (concat (map (\<lambda>row. map (\<lambda>col.
                         (startX + real row * spacing * cos (pi / 6),
                          startY + (real col - real row / 2) * spacing)) [0..<row + 1]) [0..<5])));
          spots = [(tableL + TABLE_WIDTH * 0.2, cy - TABLE_HEIGHT * 0.22, ''yellow''),
                   (tableL + TABLE_WIDTH * 0.2, cy + TABLE_HEIGHT * 0.22, ''green''),
                   (tableL + TABLE_WIDTH * 0.2, cy, ''brown''),
                   (tableL + TABLE_WIDTH * 0.5, cy, ''blue''),
                   (startX - spacing * 1.5, cy, ''pink''),
                   (tableL + TABLE_WIDTH * 0.89, cy, ''black'')]
      in (cueBall, reds @ map (\<lambda>(px, py, l). createBall a px py l) spots))"

section \<open>The world: adding and removing bodies\<close>

text \<open>
  \<^verbatim>\<open>Composite.add\<close> pushes onto the world's body array (without looking for duplicates),
  \<^verbatim>\<open>Composite.remove\<close> deletes the first occurrence of each body it is given, and
  \<^verbatim>\<open>Composite.get(world, id, "body")\<close> finds a body of the world by its id.
\<close>

definition Composite_add :: "nat list \<Rightarrow> nat list \<Rightarrow> nat list" where
  "Composite_add w ids = w @ ids"

definition Composite_remove :: "nat list \<Rightarrow> nat list \<Rightarrow> nat list" where
  "Composite_remove w ids = fold remove1 ids w"

definition Composite_get :: "nat list \<Rightarrow> nat \<Rightarrow> bool" where
  "Composite_get w i \<longleftrightarrow> i \<in> set w"

text \<open>The objects made by a sequence of \<^verbatim>\<open>Bodies.circle\<close> calls get consecutive fresh ids.\<close>

definition allocate :: "body list \<Rightarrow> nat \<Rightarrow> (nat \<Rightarrow> body) \<Rightarrow> (nat \<Rightarrow> body)" where
  "allocate bs n h = (\<lambda>i. if n \<le> i \<and> i < n + length bs then bs ! (i - n) else h i)"

section \<open>Session operations\<close>

definition applyPhysicsSettings :: "real \<Rightarrow> real \<Rightarrow> real \<Rightarrow> game \<Rightarrow> game" where
  "applyPhysicsSettings fAir rf dn g =
     (case engineRef g of
        None \<Rightarrow> g
      | Some w \<Rightarrow>
          g\<lparr>rollingFrictionRef := rf,
            heap := forEach (\<lambda>b. setDensity (b\<lparr>frictionAir := fAir\<rparr>) dn)
                      (filter (\<lambda>i. dynamic (heap g i)) w) (heap g)\<rparr>)"

definition resetCueBall :: "game \<Rightarrow> game" where
  "resetCueBall g =
     (case cueBallRef g of
        None \<Rightarrow> g
      | Some cueBall \<Rightarrow>
          (case engineRef g of
             None \<Rightarrow> g
           | Some w \<Rightarrow>
               (let tableL = CUSHION;
                    cy = CUSHION + TABLE_HEIGHT / 2;
                    b1 = setPosition (heap g cueBall) (tableL + TABLE_WIDTH * 0.25, cy);
                    b2 = setVelocity b1 (0, 0);
                    b3 = setAngularVelocity b2 0;
                    w' = (if \<not> Composite_get w cueBall then Composite_add w [cueBall] else w)
                in g\<lparr>heap := (heap g)(cueBall := b3),
                     engineRef := Some w',
                     isCueBallPotted := False\<rparr>)))"

definition allBallsStopped :: "game \<Rightarrow> bool" where
  "allBallsStopped g =
     (case engineRef g of
        None \<Rightarrow> True
      | Some w \<Rightarrow>
          list_all (\<lambda>i. magnitude (velocity (heap g i)) < 0.1)
            (filter (\<lambda>i. dynamic (heap g i)) w))"

definition resetGame :: "real \<Rightarrow> game \<Rightarrow> game" where
  "resetGame a g =
     (case engineRef g of
        None \<Rightarrow> g
      | Some w \<Rightarrow>
          (let bodies = filter (\<lambda>i. dynamic (heap g i)) w;
               w1 = Composite_remove w bodies;
               (cueBall, objectBalls) = createBalls a;
               n = nextId g;
               ids = [n..<n + length (cueBall # objectBalls)]
           in g\<lparr>heap := allocate (cueBall # objectBalls) n (heap g),
                nextId := n + length (cueBall # objectBalls),
                engineRef := Some (Composite_add w1 ids),
                cueBallRef := Some n,
                allBallsRef := ids,
                pottedBalls := [],
                isCueBallPotted := False\<rparr>))"

section \<open>Pocket detection\<close>

definition startsWith :: "string \<Rightarrow> string \<Rightarrow> bool" where
  "startsWith s p \<longleftrightarrow> take (length p) s = p"

text \<open>
  The \<^verbatim>\<open>collisionStart\<close> callback for one pair \<^verbatim>\<open>{bodyA, bodyB}\<close>. The callback is
  registered when the engine is created, so it does nothing before that.
\<close>

definition pocketPair :: "nat \<times> nat \<Rightarrow> game \<Rightarrow> game" where
  "pocketPair pair g =
     (case engineRef g of
        None \<Rightarrow> g
      | Some w \<Rightarrow>
          (let (bodyA, bodyB) = pair;
               found = (if startsWith (label (heap g bodyA)) ''pocket-'' then Some (bodyA, bodyB)
                        else if startsWith (label (heap g bodyB)) ''pocket-'' then Some (bodyB, bodyA)
                        else None)
           in case found of
                None \<Rightarrow> g
              | Some (pocket, ball) \<Rightarrow>
                  if \<not> isStatic (heap g ball)
                  then (if label (heap g ball) = ''cue''
                        then g\<lparr>engineRef := Some (Composite_remove w [ball]),
                               isCueBallPotted := True\<rparr>
                        else g\<lparr>engineRef := Some (Composite_remove w [ball]),
                               pottedBalls := pottedBalls g @ [label (heap g ball)]\<rparr>)
                  else g))"

definition collisionStart :: "(nat \<times> nat) list \<Rightarrow> game \<Rightarrow> game" where
  "collisionStart pairs g = fold pocketPair pairs g"

section \<open>Mouse and cue interaction\<close>

text \<open>
  \<^verbatim>\<open>Math.atan2(y, x)\<close> on real numbers and \<^verbatim>\<open>Math.round\<close> (half rounds up). The handlers
  take the pointer position in canvas coordinates, as \<^verbatim>\<open>getCanvasPos\<close> returns it.
\<close>

definition atan2 :: "real \<Rightarrow> real \<Rightarrow> real" where
  "atan2 b a =
     (if 0 < a then arctan (b / a)
      else if a < 0 \<and> 0 \<le> b then arctan (b / a) + pi
      else if a < 0 \<and> b < 0 then arctan (b / a) - pi
      else if 0 < b then pi / 2
      else if b < 0 then - (pi / 2)
      else 0)"

definition round_js :: "real \<Rightarrow> int" where
  "round_js r = \<lfloor>r + 1 / 2\<rfloor>"

definition onMouseDown :: "vector \<Rightarrow> game \<Rightarrow> game" where
  "onMouseDown pos g =
     (if \<not> allBallsStopped g then g
      else case cueBallRef g of
             None \<Rightarrow> g
           | Some cue \<Rightarrow>
               (let dist = magnitude (sub pos (position (heap g cue)))
                in if dist < BALL_R * 4
                   then g\<lparr>isDraggingRef := True,
                          dragStartRef := Some (position (heap g cue)),
                          isAiming := True\<rparr>
                   else g))"

definition onMouseMove :: "vector \<Rightarrow> game \<Rightarrow> game" where
  "onMouseMove pos g =
     (if \<not> isDraggingRef g \<or> dragStartRef g = None then g
      else case cueBallRef g of
             None \<Rightarrow> g
           | Some cue \<Rightarrow>
               (let from = position (heap g cue);
                    dx = fst from - fst pos;
                    dy = snd from - snd pos;
                    power = min (sqrt (dx * dx + dy * dy)) 300
                in g\<lparr>shotPower := round_js ((power / 300) * 100),
                     cueLineRef := Some (from, pos)\<rparr>))"

text \<open>
  The time stamp that \<^verbatim>\<open>onMouseUp\<close> stores with the last force only feeds the fading
  arrow of the renderer and is left out.
\<close>

definition onMouseUp :: "vector \<Rightarrow> game \<Rightarrow> game" where
  "onMouseUp pos g =
     (if \<not> isDraggingRef g \<or> dragStartRef g = None then g
      else case cueBallRef g of
             None \<Rightarrow> g
           | Some cue \<Rightarrow>
               (let from = position (heap g cue);
                    dx = fst from - fst pos;
                    dy = snd from - snd pos;
                    power = min (sqrt (dx * dx + dy * dy)) 300;
                    maxForce = 0.08;
                    force = (power / 300) * maxForce;
                    g1 = (if power > 5
                          then (let angle = atan2 dy dx;
                                    fx = cos angle * force;
                                    fy = sin angle * force
                                in g\<lparr>heap := (heap g)(cue :=
                                         applyForce (heap g cue) (position (heap g cue)) (fx, fy)),
                                       lastForceRef := Some (fx, fy)\<rparr>)
                          else g)
                in g1\<lparr>isDraggingRef := False,
                      dragStartRef := None,
                      cueLineRef := None,
                      isAiming := False,
                      shotPower := 0\<rparr>))"

section \<open>Mounting the component\<close>

text \<open>
  The effect that runs when the component is mounted creates the engine, the rails, cushions
  and pocket sensors (the list \<open>statics\<close>, whose geometry plays no role here), then the balls,
  and adds all of them to the world. Ids are handed out in the order of creation.
\<close>

definition mount :: "real \<Rightarrow> body list \<Rightarrow> game" where
  "mount a statics =
     (let (cueBall, objectBalls) = createBalls a;
          created = statics @ cueBall # objectBalls
      in \<lparr>heap = allocate created 0 (\<lambda>i. cueBall),
          nextId = length created,
          engineRef = Some [0..<length created],
          cueBallRef = Some (length statics),
          allBallsRef = [length statics..<length created],
          isDraggingRef = False,
          dragStartRef = None,
          cueLineRef = None,
          lastForceRef = None,
          rollingFrictionRef = 0.0006,
          pottedBalls = [],
          shotPower = 0,
          isAiming = False,
          isCueBallPotted = False\<rparr>)"

text \<open>
  What every reachable state satisfies: the world lists no body twice, and the ids in the
  world and in the cue-ball ref have been handed out already.
\<close>

definition wellFormed :: "game \<Rightarrow> bool" where
  "wellFormed g \<longleftrightarrow>
     (case engineRef g of
        None \<Rightarrow> True
      | Some w \<Rightarrow> distinct w \<and> list_all (\<lambda>i. i < nextId g) w) \<and>
     (case cueBallRef g of
        None \<Rightarrow> True
      | Some c \<Rightarrow> c < nextId g)"

section \<open>The simulation tick and the event loop\<close>

text \<open>
  The integration, collision detection and collision response of Matter.js are not part of
  this repository; they are parameters. They read and write bodies and never add a body to
  the world.
\<close>

record physics =
  bodiesUpdate :: "nat list \<Rightarrow> (nat \<Rightarrow> body) \<Rightarrow> (nat \<Rightarrow> body)"
  collisions :: "nat list \<Rightarrow> (nat \<Rightarrow> body) \<Rightarrow> (nat \<times> nat) list"
  resolver :: "nat list \<Rightarrow> (nat \<Rightarrow> body) \<Rightarrow> (nat \<Rightarrow> body)"

text \<open>
  One \<^verbatim>\<open>Engine.update\<close> of Matter.js, which the runner calls once per tick: it triggers
  \<^verbatim>\<open>beforeUpdate\<close>, integrates the bodies, detects collisions and triggers
  \<^verbatim>\<open>collisionStart\<close> with the pairs that started, resolves the collisions and triggers
  \<^verbatim>\<open>afterUpdate\<close>.
\<close>

datatype engineEvent = BeforeUpdate | CollisionStart | AfterUpdate

datatype phase = Trigger engineEvent | BodiesUpdate | Resolve

definition Engine_update :: "phase list" where
  "Engine_update =
     [Trigger BeforeUpdate, BodiesUpdate, Trigger CollisionStart, Resolve, Trigger AfterUpdate]"

text \<open>
  The component subscribes the pocket handler with \<^verbatim>\<open>Events.on(engine, "collisionStart", ...)\<close>
  and the friction pass with \<^verbatim>\<open>Events.on(engine, "beforeUpdate", ...)\<close>.
\<close>

datatype action = FrictionPass | PocketHandler | Integrate | ResolveCollisions

definition listeners :: "engineEvent \<Rightarrow> action list" where
  "listeners e =
     (case e of
        CollisionStart \<Rightarrow> [PocketHandler]
      | BeforeUpdate \<Rightarrow> [FrictionPass]
      | AfterUpdate \<Rightarrow> [])"

fun expand :: "phase \<Rightarrow> action list" where
  "expand (Trigger e) = listeners e"
| "expand BodiesUpdate = [Integrate]"
| "expand Resolve = [ResolveCollisions]"

definition tickActions :: "action list" where
  "tickActions = concat (map expand Engine_update)"

fun runAction :: "physics \<Rightarrow> action \<Rightarrow> game \<Rightarrow> game" where
  "runAction P FrictionPass g = frictionPass g"
| "runAction P PocketHandler g =
     (case engineRef g of
        None \<Rightarrow> g
      | Some w \<Rightarrow> collisionStart (collisions P w (heap g)) g)"
| "runAction P Integrate g =
     (case engineRef g of
        None \<Rightarrow> g
      | Some w \<Rightarrow> g\<lparr>heap := bodiesUpdate P w (heap g)\<rparr>)"
| "runAction P ResolveCollisions g =
     (case engineRef g of
        None \<Rightarrow> g
      | Some w \<Rightarrow> g\<lparr>heap := resolver P w (heap g)\<rparr>)"

definition tick :: "physics \<Rightarrow> game \<Rightarrow> game" where
  "tick P g = fold (runAction P) tickActions g"




text \<open>
  The order the specification gives for a tick: integrate, resolve collisions, notify
  sensor contacts, apply the friction pass.
\<close>

definition specTickOrder :: "action list" where
  "specTickOrder = [Integrate, ResolveCollisions, PocketHandler, FrictionPass]"

text \<open>\<open>precedes a b xs\<close>: \<open>b\<close> occurs in \<open>xs\<close> somewhere after the first \<open>a\<close>.\<close>

definition precedes :: "'a \<Rightarrow> 'a \<Rightarrow> 'a list \<Rightarrow> bool" where
  "precedes a b xs \<longleftrightarrow> b \<in> set (tl (dropWhile (\<lambda>x. x \<noteq> a) xs))"

text \<open>
  Everything that can happen to the component: a tick of the runner, the three pointer
  events, the physics sliders and the two reset buttons.
\<close>

datatype event =
    Tick physics
  | MouseDown vector
  | MouseMove vector
  | MouseUp vector
  | SetGlobalPhysics real real real
  | ResetCueBall
  | ResetGame real

fun handle :: "event \<Rightarrow> game \<Rightarrow> game" where
  "handle (Tick P) g = tick P g"
| "handle (MouseDown pos) g = onMouseDown pos g"
| "handle (MouseMove pos) g = onMouseMove pos g"
| "handle (MouseUp pos) g = onMouseUp pos g"
| "handle (SetGlobalPhysics fAir rf dn) g = applyPhysicsSettings fAir rf dn g"
| "handle ResetCueBall g = resetCueBall g"
| "handle (ResetGame a) g = resetGame a g"

definition run :: "event list \<Rightarrow> game \<Rightarrow> game" where
  "run es g = fold handle es g"

fun isResetGame :: "event \<Rightarrow> bool" where
  "isResetGame (ResetGame a) = True"
| "isResetGame e = False"

text \<open>\<^verbatim>\<open>Composite.allBodies(world)\<close>, empty while there is no engine.\<close>

definition allBodies :: "game \<Rightarrow> nat list" where
  "allBodies g = (case engineRef g of None \<Rightarrow> [] | Some w \<Rightarrow> w)"

section \<open>A concrete table\<close>

text \<open>
  A small world used to run the operations on concrete data: one pocket sensor, the cue
  ball at rest, a red ball moving at speed 5 and the blue ball moving at speed 0.15.
\<close>

definition exampleGame :: game where
  "exampleGame =
     \<lparr>heap = allocate
               [(createBall 300 38 38 ''pocket-0'')\<lparr>isStatic := True, isSensor := True\<rparr>,
                createBall 300 300 300 ''cue'',
                (createBall 300 600 300 ''red-7'')\<lparr>velocity := (3, 4), angularVelocity := 1\<rparr>,
                (createBall 300 700 300 ''blue'')\<lparr>velocity := (0.15, 0)\<rparr>]
               0 (\<lambda>i. createBall 300 0 0 []),
      nextId = 4,
      engineRef = Some [0, 1, 2, 3],
      cueBallRef = Some 1,
      allBallsRef = [1, 2, 3],
      isDraggingRef = False,
      dragStartRef = None,
      cueLineRef = None,
      lastForceRef = None,
      rollingFrictionRef = 0.0006,
      pottedBalls = [],
      shotPower = 0,
      isAiming = False,
      isCueBallPotted = False\<rparr>"


text \<open>The same table with every ball at rest, and the state while the player is aiming.\<close>

definition restGame :: game where
  "restGame =
     exampleGame\<lparr>heap := allocate
               [(createBall 300 38 38 ''pocket-0'')\<lparr>isStatic := True, isSensor := True\<rparr>,
                createBall 300 300 300 ''cue'',
                createBall 300 600 300 ''red-7'',
                createBall 300 700 300 ''blue'']
               0 (\<lambda>i. createBall 300 0 0 [])\<rparr>"

definition aimingGame :: game where
  "aimingGame = restGame\<lparr>isDraggingRef := True, dragStartRef := Some (300, 300), isAiming := True\<rparr>"

text \<open>
  A physics that leaves every body alone, and a run of events that replaces the cue ball but
  never racks the balls again.
\<close>

definition stillPhysics :: physics where
  "stillPhysics = \<lparr>bodiesUpdate = (\<lambda>w h. h), collisions = (\<lambda>w h. []), resolver = (\<lambda>w h. h)\<rparr>"

definition exampleEvents :: "event list" where
  "exampleEvents =
     [Tick stillPhysics, MouseDown (305, 300), MouseMove (200, 300), MouseUp (200, 300),
      SetGlobalPhysics 0.01 0.001 0.005, ResetCueBall, Tick stillPhysics]"

section \<open>Lemmas\<close>

lemma if_pick1: "A \<Longrightarrow> (if A then X else Y) \<Longrightarrow> X"
  by simp

lemma if_pick2: "\<not> A \<Longrightarrow> B \<Longrightarrow> (if A then X else if B then Y else Z) \<Longrightarrow> Y"
  by simp

lemma if_pick3: "\<not> A \<Longrightarrow> \<not> B \<Longrightarrow> (if A then X else if B then Y else Z) \<Longrightarrow> Z"
  by simp

lemma magnitude_3_4: "magnitude (3, 4) = 5"
  unfolding magnitude_def by (rule real_sqrt_unique) (simp_all add: power2_eq_square)

lemma exampleGame_heap_2:
  "heap exampleGame 2 =
     (createBall 300 600 300 ''red-7'')\<lparr>velocity := (3, 4), angularVelocity := 1\<rparr>"
  by (simp add: exampleGame_def allocate_def)

lemma forEach_notin: "i \<notin> set ids \<Longrightarrow> forEach f ids h i = h i"
  unfolding forEach_def by (induction ids arbitrary: h) auto

lemma forEach_distinct:
  "distinct ids \<Longrightarrow> i \<in> set ids \<Longrightarrow> forEach f ids h i = f (h i)"
proof (induction ids arbitrary: h)
  case Nil
  then show ?case by simp
next
  case (Cons a ids)
  show ?case
  proof (cases "i = a")
    case True
    with Cons.prems have "a \<notin> set ids" by simp
    then have "forEach f ids (h(a := f (h a))) a = (h(a := f (h a))) a"
      by (rule forEach_notin)
    with True show ?thesis by (simp add: forEach_def)
  next
    case False
    with Cons.prems have "distinct ids" "i \<in> set ids" by auto
    then have "forEach f ids (h(a := f (h a))) i = f ((h(a := f (h a))) i)"
      by (rule Cons.IH)
    with False show ?thesis by (simp add: forEach_def)
  qed
qed

lemma magnitude_nonneg: "0 \<le> magnitude v"
  by (simp add: magnitude_def)

lemma magnitude_scale:
  "0 \<le> c \<Longrightarrow> magnitude (fst v * c, snd v * c) = c * magnitude v"
proof -
  assume c: "0 \<le> c"
  have "fst v * c * (fst v * c) + snd v * c * (snd v * c)
          = c\<^sup>2 * (fst v * fst v + snd v * snd v)"
    by (simp add: power2_eq_square algebra_simps)
  then show ?thesis
    using c by (simp add: magnitude_def real_sqrt_mult)
qed

lemma frictionBody_stop:
  "0 < magnitude (velocity b) \<Longrightarrow> magnitude (velocity b) < 0.15 \<Longrightarrow>
   frictionBody rf b = b\<lparr>velocity := (0, 0), angularVelocity := 0\<rparr>"
  by (simp add: frictionBody_def setVelocity_def setAngularVelocity_def)

lemma frictionBody_roll:
  "0 < rf \<Longrightarrow> 0.15 < magnitude (velocity b) \<Longrightarrow>
   frictionBody rf b =
     b\<lparr>velocity := (fst (velocity b) * (max 0 (magnitude (velocity b) - rf) / magnitude (velocity b)),
                    snd (velocity b) * (max 0 (magnitude (velocity b) - rf) / magnitude (velocity b)))\<rparr>"
  by (simp add: frictionBody_def setVelocity_def Let_def)

lemma frictionBody_same:
  "\<not> (0 < magnitude (velocity b) \<and> magnitude (velocity b) < 0.15) \<Longrightarrow>
   \<not> (0 < rf \<and> 0.15 < magnitude (velocity b)) \<Longrightarrow> frictionBody rf b = b"
  by (auto simp add: frictionBody_def Let_def)

lemma frictionBody_roll_speed:
  assumes "0 < rf" "0.15 < magnitude (velocity b)"
  shows "magnitude (velocity (frictionBody rf b)) = max 0 (magnitude (velocity b) - rf)"
proof -
  let ?s = "magnitude (velocity b)"
  have pos: "0 < ?s" using assms(2) by simp
  have c: "0 \<le> max 0 (?s - rf) / ?s" using pos by simp
  have "magnitude (velocity (frictionBody rf b)) = (max 0 (?s - rf) / ?s) * ?s"
    using assms magnitude_scale [OF c, of "velocity b"] by (simp add: frictionBody_roll)
  also have "\<dots> = max 0 (?s - rf)" using pos by simp
  finally show ?thesis .
qed

lemma frictionPass_heap:
  assumes "engineRef g = Some w" "distinct w" "i \<in> set w" "dynamic (heap g i)"
  shows "heap (frictionPass g) i = frictionBody (rollingFrictionRef g) (heap g i)"
proof -
  have "distinct (filter (\<lambda>i. dynamic (heap g i)) w)" using assms(2) by simp
  moreover have "i \<in> set (filter (\<lambda>i. dynamic (heap g i)) w)" using assms(3,4) by simp
  ultimately show ?thesis
    using assms(1) by (simp add: frictionPass_def forEach_distinct)
qed

section \<open>The friction pass, body by body\<close>

text \<open>
  C1. The friction pass treats every non-static, non-sensor body \<open>i\<close> of the world as
  follows, where \<open>s\<close> is the body's speed before the pass and \<open>rf\<close> the rolling-friction
  coefficient: if \<open>0 < s < 0.15\<close>, linear and angular velocity become exactly zero;
  otherwise, if \<open>rf > 0\<close> and \<open>s > 0.15\<close>, the speed becomes \<open>max 0 (s - rf)\<close> and the
  velocity is the old one scaled by the non-negative factor \<open>max 0 (s - rf) / s\<close> (same
  direction); in every remaining case (speed 0, speed exactly 0.15, or \<open>rf \<le> 0\<close>) the body
  is left as it was.
\<close>

theorem friction_pass_cases:
  assumes "engineRef g = Some w" and "distinct w" and "i \<in> set w"
    and "\<not> isStatic (heap g i)" and "\<not> isSensor (heap g i)"
  shows "(let b = heap g i; b' = heap (frictionPass g) i;
              s = magnitude (velocity b); rf = rollingFrictionRef g
          in if 0 < s \<and> s < 0.15
             then velocity b' = (0, 0) \<and> angularVelocity b' = 0
             else if 0 < rf \<and> 0.15 < s
             then magnitude (velocity b') = max 0 (s - rf) \<and>
                  0 \<le> max 0 (s - rf) / s \<and>
                  velocity b' = (fst (velocity b) * (max 0 (s - rf) / s),
                                 snd (velocity b) * (max 0 (s - rf) / s)) \<and>
                  angularVelocity b' = angularVelocity b
             else b' = b)"
proof -
  let ?b = "heap g i" and ?rf = "rollingFrictionRef g"
  let ?s = "magnitude (velocity ?b)"
  have dyn: "dynamic ?b" using assms(4,5) by (simp add: dynamic_def)
  have eq: "heap (frictionPass g) i = frictionBody ?rf ?b"
    using assms(1,2,3) dyn by (rule frictionPass_heap)
  show ?thesis
  proof (cases "0 < ?s \<and> ?s < 0.15")
    case True
    then have "frictionBody ?rf ?b = ?b\<lparr>velocity := (0, 0), angularVelocity := 0\<rparr>"
      by (simp add: frictionBody_stop)
    with True eq show ?thesis by (simp add: Let_def)
  next
    case slow: False
    show ?thesis
    proof (cases "0 < ?rf \<and> 0.15 < ?s")
      case True
      then have rf: "0 < ?rf" and s: "0.15 < ?s" by simp_all
      have sp: "magnitude (velocity (frictionBody ?rf ?b)) = max 0 (?s - ?rf)"
        using rf s by (rule frictionBody_roll_speed)
      have nn: "0 \<le> max 0 (?s - ?rf) / ?s" using s by simp
      have v: "velocity (frictionBody ?rf ?b) =
                 (fst (velocity ?b) * (max 0 (?s - ?rf) / ?s),
                  snd (velocity ?b) * (max 0 (?s - ?rf) / ?s))"
        using rf s by (simp add: frictionBody_roll)
      have a: "angularVelocity (frictionBody ?rf ?b) = angularVelocity ?b"
        using rf s by (simp add: frictionBody_roll)
      from slow True sp nn v a show ?thesis
        unfolding Let_def eq by (simp only: if_False if_True simp_thms)
    next
      case False
      with slow have "frictionBody ?rf ?b = ?b" by (rule frictionBody_same)
      with slow False eq show ?thesis by (auto simp add: Let_def)
    qed
  qed
qed

theorem friction_pass_cases_witness:
  "engineRef exampleGame = Some [0, 1, 2, 3] \<and> distinct [0, 1, 2, 3 :: nat] \<and>
   2 \<in> set [0, 1, 2, 3 :: nat] \<and>
   \<not> isStatic (heap exampleGame 2) \<and> \<not> isSensor (heap exampleGame 2) \<and>
   magnitude (velocity (heap exampleGame 2)) = 5 \<and>
   magnitude (velocity (heap (frictionPass exampleGame) 2)) = 4.9994"
proof -
  have h1: "engineRef exampleGame = Some [0, 1, 2, 3]" by (simp add: exampleGame_def)
  have h2: "distinct [0, 1, 2, 3 :: nat]" by simp
  have h3: "2 \<in> set [0, 1, 2, 3 :: nat]" by simp
  have h4: "\<not> isStatic (heap exampleGame 2)" by (simp add: exampleGame_heap_2 createBall_def)
  have h5: "\<not> isSensor (heap exampleGame 2)" by (simp add: exampleGame_heap_2 createBall_def)
  have s: "magnitude (velocity (heap exampleGame 2)) = 5"
    by (simp add: exampleGame_heap_2 createBall_def magnitude_3_4)
  have rf: "rollingFrictionRef exampleGame = 0.0006" by (simp add: exampleGame_def)
  note t = friction_pass_cases [OF h1 h2 h3 h4 h5, unfolded Let_def s rf]
  have c1: "\<not> ((0::real) < 5 \<and> (5::real) < 0.15)" by simp
  have c2: "(0::real) < 0.0006 \<and> (0.15::real) < 5" by simp
  have "magnitude (velocity (heap (frictionPass exampleGame) 2)) = max 0 (5 - 0.0006)"
    by (rule conjunct1 [OF if_pick2 [OF c1 c2 t]])
  then have "magnitude (velocity (heap (frictionPass exampleGame) 2)) = 4.9994"
    by simp
  with h1 h2 h3 h4 h5 s show ?thesis by simp
qed

section \<open>More on the friction pass\<close>

lemma magnitude_zero: "magnitude (0, 0) = 0"
  by (simp add: magnitude_def)

lemma magnitude_x_axis: "0 \<le> a \<Longrightarrow> magnitude (a, 0) = a"
  by (simp add: magnitude_def)

lemma frictionBody_flags:
  "isStatic (frictionBody rf b) = isStatic b" "isSensor (frictionBody rf b) = isSensor b"
  by (simp_all add: frictionBody_def Let_def setVelocity_def setAngularVelocity_def)

lemma frictionBody_dynamic: "dynamic (frictionBody rf b) = dynamic b"
  by (simp add: dynamic_def frictionBody_flags)



lemma frictionPass_engineRef: "engineRef (frictionPass g) = engineRef g"
  by (simp add: frictionPass_def split: option.splits)




section \<open>Releasing the cue\<close>

lemma inv_sqrt_slope:
  assumes "a \<noteq> 0"
  shows "1 / sqrt (1 + (b / a)\<^sup>2) = \<bar>a\<bar> / sqrt (a * a + b * b)"
proof -
  have "1 + (b / a)\<^sup>2 = (a * a + b * b) / a\<^sup>2"
    using assms by (simp add: field_simps power2_eq_square)
  then have "sqrt (1 + (b / a)\<^sup>2) = sqrt (a * a + b * b) / \<bar>a\<bar>"
    by (simp add: real_sqrt_divide)
  then show ?thesis by simp
qed

lemma cos_atan2:
  assumes "a \<noteq> 0 \<or> b \<noteq> 0"
  shows "cos (atan2 b a) = a / sqrt (a * a + b * b)"
proof (cases "a = 0")
  case True
  with assms have "b \<noteq> 0" by simp
  with True show ?thesis by (simp add: atan2_def)
next
  case False
  then have c: "cos (arctan (b / a)) = \<bar>a\<bar> / sqrt (a * a + b * b)"
    by (simp add: cos_arctan inv_sqrt_slope)
  show ?thesis
  proof (cases "0 < a")
    case True
    with c show ?thesis by (simp add: atan2_def)
  next
    case neg: False
    with False have "a < 0" by simp
    with c show ?thesis by (cases "0 \<le> b") (simp_all add: atan2_def)
  qed
qed

lemma sin_atan2:
  assumes "a \<noteq> 0 \<or> b \<noteq> 0"
  shows "sin (atan2 b a) = b / sqrt (a * a + b * b)"
proof (cases "a = 0")
  case True
  with assms have b: "b \<noteq> 0" by simp
  have "sqrt (b * b) = \<bar>b\<bar>" by simp
  with True b show ?thesis by (cases "0 < b") (simp_all add: atan2_def)
next
  case False
  have "sin (arctan (b / a)) = (b / a) * (1 / sqrt (1 + (b / a)\<^sup>2))"
    by (simp add: sin_arctan)
  also have "\<dots> = (b / a) * (\<bar>a\<bar> / sqrt (a * a + b * b))"
    by (simp only: inv_sqrt_slope [OF False])
  finally have s: "sin (arctan (b / a)) = (b / a) * (\<bar>a\<bar> / sqrt (a * a + b * b))" .
  show ?thesis
  proof (cases "0 < a")
    case True
    with s show ?thesis by (simp add: atan2_def)
  next
    case neg: False
    with False have "a < 0" by simp
    with s show ?thesis by (cases "0 \<le> b") (simp_all add: atan2_def)
  qed
qed

lemma applyForce_centre:
  "applyForce b (position b) f = b\<lparr>force := (fst (force b) + fst f, snd (force b) + snd f)\<rparr>"
  by (simp add: applyForce_def sub_def)

lemma magnitude_sub: "magnitude (sub p q) = sqrt ((fst p - fst q) * (fst p - fst q) + (snd p - snd q) * (snd p - snd q))"
  by (simp add: magnitude_def sub_def)

text \<open>
  C4. Releasing the pointer while aiming, with \<open>d\<close> the distance between the cue ball and
  the pointer clamped to 300: if \<open>d > 5\<close>, a force \<open>F\<close> of magnitude \<open>(d / 300) * 0.08\<close>
  is added to the cue ball's force and nothing to its torque (it is applied at the centre),
  and \<open>F\<close> is a positive multiple of the vector from the pointer to the cue ball; if
  \<open>d \<le> 5\<close>, no body changes. Either way the gesture refs are cleared, the aiming display
  is switched off and the shot power is 0. With the cue ball at (300, 300) and the release
  at (200, 300) the force is \<open>(100 / 300) * 0.08\<close> in the +x direction.
\<close>

theorem mouse_up_shot:
  assumes "isDraggingRef g" and "dragStartRef g = Some origin" and "cueBallRef g = Some cue"
  shows "(let p = position (heap g cue);
              len = magnitude (sub p pos);
              d = min len 300;
              f = (d / 300) * 0.08;
              F = ((fst p - fst pos) / len * f, (snd p - snd pos) / len * f);
              g' = onMouseUp pos g
          in (if 5 < d
              then magnitude F = f \<and> 0 < f / len \<and>
                   heap g' = (heap g)(cue := (heap g cue)
                      \<lparr>force := (fst (force (heap g cue)) + fst F, snd (force (heap g cue)) + snd F)\<rparr>) \<and>
                   lastForceRef g' = Some F
              else heap g' = heap g \<and> lastForceRef g' = lastForceRef g) \<and>
             isDraggingRef g' = False \<and> dragStartRef g' = None \<and> cueLineRef g' = None \<and>
             isAiming g' = False \<and> shotPower g' = 0 \<and>
             engineRef g' = engineRef g \<and> cueBallRef g' = cueBallRef g \<and>
             pottedBalls g' = pottedBalls g \<and> isCueBallPotted g' = isCueBallPotted g)"
proof -
  let ?p = "position (heap g cue)"
  let ?dx = "fst ?p - fst pos" and ?dy = "snd ?p - snd pos"
  let ?len = "magnitude (sub ?p pos)"
  let ?d = "min ?len 300"
  let ?f = "(?d / 300) * 0.08"
  let ?F = "(?dx / ?len * ?f, ?dy / ?len * ?f)"
  let ?g' = "onMouseUp pos g"
  have len: "?len = sqrt (?dx * ?dx + ?dy * ?dy)" by (rule magnitude_sub)
  have frame: "isDraggingRef ?g' = False \<and> dragStartRef ?g' = None \<and> cueLineRef ?g' = None \<and>
             isAiming ?g' = False \<and> shotPower ?g' = 0 \<and>
             engineRef ?g' = engineRef g \<and> cueBallRef ?g' = cueBallRef g \<and>
             pottedBalls ?g' = pottedBalls g \<and> isCueBallPotted ?g' = isCueBallPotted g"
    using assms by (simp add: onMouseUp_def Let_def)
  have main: "if 5 < ?d
              then magnitude ?F = ?f \<and> 0 < ?f / ?len \<and>
                   heap ?g' = (heap g)(cue := (heap g cue)
                      \<lparr>force := (fst (force (heap g cue)) + fst ?F, snd (force (heap g cue)) + snd ?F)\<rparr>) \<and>
                   lastForceRef ?g' = Some ?F
              else heap ?g' = heap g \<and> lastForceRef ?g' = lastForceRef g"
  proof (cases "5 < ?d")
    case True
    then have lenpos: "0 < ?len" by simp
    then have nz: "?dx \<noteq> 0 \<or> ?dy \<noteq> 0" unfolding len by auto
    have dpos: "0 < ?f" using True by simp
    have c: "cos (atan2 ?dy ?dx) = ?dx / ?len" unfolding len using nz by (rule cos_atan2)
    have s: "sin (atan2 ?dy ?dx) = ?dy / ?len" unfolding len using nz by (rule sin_atan2)
    have ratio: "0 \<le> ?f / ?len" using dpos lenpos by simp
    have eqF: "?F = (fst (?dx, ?dy) * (?f / ?len), snd (?dx, ?dy) * (?f / ?len))" by simp
    have ml: "magnitude (?dx, ?dy) = ?len" by (simp add: magnitude_def sub_def)
    have "magnitude ?F = (?f / ?len) * magnitude (?dx, ?dy)"
      unfolding eqF using ratio by (rule magnitude_scale)
    also have "\<dots> = (?f / ?len) * ?len" by (simp only: ml)
    also have "\<dots> = ?f" using lenpos by simp
    finally have m: "magnitude ?F = ?f" .
    have pwr: "5 < min (sqrt (?dx * ?dx + ?dy * ?dy)) 300" using True unfolding len .
    have h: "heap ?g' = (heap g)(cue := (heap g cue)
                      \<lparr>force := (fst (force (heap g cue)) + fst ?F, snd (force (heap g cue)) + snd ?F)\<rparr>)"
      using assms pwr
      by (simp add: onMouseUp_def Let_def applyForce_centre c [unfolded len] s [unfolded len] len)
    have l: "lastForceRef ?g' = Some ?F"
      using assms pwr
      by (simp add: onMouseUp_def Let_def c [unfolded len] s [unfolded len] len)
    from True m dpos lenpos h l show ?thesis by simp
  next
    case False
    then have pwr: "\<not> 5 < min (sqrt (?dx * ?dx + ?dy * ?dy)) 300" unfolding len .
    have "heap ?g' = heap g \<and> lastForceRef ?g' = lastForceRef g"
      using assms pwr by (simp add: onMouseUp_def Let_def)
    with False show ?thesis by simp
  qed
  from main frame show ?thesis unfolding Let_def by blast
qed

lemma aimingGame_cue: "heap aimingGame 1 = createBall 300 300 300 ''cue''"
  by (simp add: aimingGame_def restGame_def allocate_def)

theorem mouse_up_shot_witness:
  "isDraggingRef aimingGame \<and> dragStartRef aimingGame = Some (300, 300) \<and>
   cueBallRef aimingGame = Some 1 \<and> position (heap aimingGame 1) = (300, 300) \<and>
   force (heap (onMouseUp (200, 300) aimingGame) 1) = (2 / 75, 0) \<and>
   heap (onMouseUp (303, 300) aimingGame) = heap aimingGame \<and>
   \<not> isDraggingRef (onMouseUp (200, 300) aimingGame) \<and>
   shotPower (onMouseUp (200, 300) aimingGame) = 0"
proof -
  have h1: "isDraggingRef aimingGame" by (simp add: aimingGame_def)
  have h2: "dragStartRef aimingGame = Some (300, 300)" by (simp add: aimingGame_def)
  have h3: "cueBallRef aimingGame = Some 1"
    by (simp add: aimingGame_def restGame_def exampleGame_def)
  have p: "position (heap aimingGame 1) = (300, 300)"
    unfolding aimingGame_cue by (simp add: createBall_def)
  have f0: "force (heap aimingGame (Suc 0)) = (0, 0)"
    using aimingGame_cue by (simp add: createBall_def)
  have len1: "magnitude (sub (300, 300) (200, 300)) = 100"
    using magnitude_x_axis [of 100] by (simp add: sub_def)
  have len2: "magnitude (sub (300, 300) (303, 300)) = 3"
    by (simp add: sub_def magnitude_def)
  note t1 = mouse_up_shot [OF h1 h2 h3, of "(200, 300)", unfolded Let_def p len1]
  note t2 = mouse_up_shot [OF h1 h2 h3, of "(303, 300)", unfolded Let_def p len2]
  have a: "force (heap (onMouseUp (200, 300) aimingGame) 1) = (2 / 75, 0)"
    using t1 by (simp add: f0)
  have b: "heap (onMouseUp (303, 300) aimingGame) = heap aimingGame"
    using t2 by simp
  have c: "\<not> isDraggingRef (onMouseUp (200, 300) aimingGame) \<and>
           shotPower (onMouseUp (200, 300) aimingGame) = 0"
    using t1 by simp
  from h1 h2 h3 p a b c show ?thesis by blast
qed

section \<open>Pressing near the cue ball\<close>

lemma allBallsStopped_iff:
  "engineRef g = Some w \<Longrightarrow>
   allBallsStopped g \<longleftrightarrow>
     (\<forall>i \<in> set w. dynamic (heap g i) \<longrightarrow> magnitude (velocity (heap g i)) < 0.1)"
  by (auto simp add: allBallsStopped_def list_all_iff)

text \<open>
  C5. A pointer-down event starts aiming (drag flag set, drag origin recorded as the cue
  ball's position, aiming display on) if and only if every non-static, non-sensor body of
  the world has speed below 0.1 and the pointer is less than \<open>4 * BALL_R = 40\<close> units
  from the cue ball; otherwise the state is returned unchanged.
\<close>

theorem mouse_down_gating:
  assumes "engineRef g = Some w" and "cueBallRef g = Some cue"
  shows "onMouseDown pos g =
           (if (\<forall>i \<in> set w. \<not> isStatic (heap g i) \<and> \<not> isSensor (heap g i) \<longrightarrow>
                   magnitude (velocity (heap g i)) < 0.1) \<and>
               magnitude (sub pos (position (heap g cue))) < 40
            then g\<lparr>isDraggingRef := True,
                   dragStartRef := Some (position (heap g cue)),
                   isAiming := True\<rparr>
            else g)"
proof -
  have "allBallsStopped g \<longleftrightarrow>
          (\<forall>i \<in> set w. \<not> isStatic (heap g i) \<and> \<not> isSensor (heap g i) \<longrightarrow>
                   magnitude (velocity (heap g i)) < 0.1)"
    using assms(1) by (simp add: allBallsStopped_iff dynamic_def)
  then show ?thesis
    using assms(2) by (auto simp add: onMouseDown_def BALL_R_def Let_def)
qed

lemma restGame_engineRef: "engineRef restGame = Some [0, 1, 2, 3]"
  by (simp add: restGame_def exampleGame_def)

lemma restGame_heap:
  "heap restGame 0 = (createBall 300 38 38 ''pocket-0'')\<lparr>isStatic := True, isSensor := True\<rparr>"
  "heap restGame (Suc 0) = createBall 300 300 300 ''cue''"
  "heap restGame 2 = createBall 300 600 300 ''red-7''"
  "heap restGame 3 = createBall 300 700 300 ''blue''"
  by (simp_all add: restGame_def allocate_def)

lemma exampleGame_engineRef: "engineRef exampleGame = Some [0, 1, 2, 3]"
  by (simp add: exampleGame_def)

theorem mouse_down_gating_witness:
  "engineRef restGame = Some [0, 1, 2, 3] \<and> cueBallRef restGame = Some 1 \<and>
   onMouseDown (305, 300) restGame = aimingGame \<and>
   onMouseDown (500, 300) restGame = restGame \<and>
   engineRef exampleGame = Some [0, 1, 2, 3] \<and> cueBallRef exampleGame = Some 1 \<and>
   onMouseDown (305, 300) exampleGame = exampleGame"
proof -
  have h1: "engineRef restGame = Some [0, 1, 2, 3]" by (rule restGame_engineRef)
  have h2: "cueBallRef restGame = Some 1" by (simp add: restGame_def exampleGame_def)
  have k1: "engineRef exampleGame = Some [0, 1, 2, 3]" by (rule exampleGame_engineRef)
  have k2: "cueBallRef exampleGame = Some 1" by (simp add: exampleGame_def)
  have m0: "magnitude (0, 0) < 0.1" by (simp add: magnitude_zero)
  have rest: "\<forall>i \<in> set [0, 1, 2, 3 :: nat]. \<not> isStatic (heap restGame i) \<and> \<not> isSensor (heap restGame i) \<longrightarrow>
                   magnitude (velocity (heap restGame i)) < 0.1"
    using m0 by (simp add: restGame_heap createBall_def)
  have near: "magnitude (sub (305, 300) (position (heap restGame 1))) < 40"
    using magnitude_x_axis [of 5] by (simp add: restGame_heap createBall_def sub_def)
  have far: "\<not> magnitude (sub (500, 300) (position (heap restGame 1))) < 40"
    using magnitude_x_axis [of 200] by (simp add: restGame_heap createBall_def sub_def)
  have moving: "\<not> (\<forall>i \<in> set [0, 1, 2, 3 :: nat]. \<not> isStatic (heap exampleGame i) \<and> \<not> isSensor (heap exampleGame i) \<longrightarrow>
                   magnitude (velocity (heap exampleGame i)) < 0.1)"
    by (simp add: exampleGame_heap_2 createBall_def magnitude_3_4)
  have a: "onMouseDown (305, 300) restGame = aimingGame"
  proof -
    have "onMouseDown (305, 300) restGame =
            restGame\<lparr>isDraggingRef := True,
                     dragStartRef := Some (position (heap restGame 1)),
                     isAiming := True\<rparr>"
      unfolding mouse_down_gating [OF h1 h2] by (rule if_P) (use rest near in blast)
    also have "\<dots> = aimingGame"
      using restGame_heap(2) by (simp add: aimingGame_def createBall_def)
    finally show ?thesis .
  qed
  have b: "onMouseDown (500, 300) restGame = restGame"
    unfolding mouse_down_gating [OF h1 h2] by (rule if_not_P) (use far in blast)
  have c: "onMouseDown (305, 300) exampleGame = exampleGame"
    unfolding mouse_down_gating [OF k1 k2] by (rule if_not_P) (use moving in blast)
  from h1 h2 k1 k2 a b c show ?thesis by blast
qed

section \<open>Removing a body from the world\<close>

lemma Composite_remove_single: "Composite_remove w [i] = remove1 i w"
  by (simp add: Composite_remove_def)

section \<open>The order of a tick, and bodies that left the world\<close>

lemma tickActions_eq: "tickActions = [FrictionPass, Integrate, PocketHandler, ResolveCollisions]"
  by (simp add: tickActions_def Engine_update_def listeners_def)

text \<open>
  C2 (as the code has it). In every tick the friction pass runs first: it is subscribed to
  \<^verbatim>\<open>beforeUpdate\<close>, so it precedes that tick's integration, the notification of sensor
  contacts and the collision response, and acts on the velocities the previous tick left.
\<close>

theorem friction_pass_runs_first:
  "tickActions = [FrictionPass, Integrate, PocketHandler, ResolveCollisions] \<and>
   precedes FrictionPass Integrate tickActions \<and>
   precedes FrictionPass PocketHandler tickActions \<and>
   precedes FrictionPass ResolveCollisions tickActions \<and>
   tick P g = runAction P ResolveCollisions
                (runAction P PocketHandler (runAction P Integrate (frictionPass g)))"
  by (simp add: tickActions_eq precedes_def tick_def)

text \<open>
  C2 (as stated) asks for the order integrate, resolve collisions, notify sensor contacts,
  friction pass. That is not the order of a tick, and the friction pass does not come after
  the integration.
\<close>

theorem friction_after_integration_counterexample:
  "tickActions \<noteq> specTickOrder \<and> \<not> precedes Integrate FrictionPass tickActions"
  by (simp add: tickActions_eq specTickOrder_def precedes_def)

lemma pocketPair_allBodies: "set (allBodies (pocketPair pair g)) \<subseteq> set (allBodies g)"
proof (cases "engineRef g")
  case None
  then show ?thesis by (simp add: pocketPair_def)
next
  case (Some w)
  have r: "\<And>b. set (remove1 b w) \<subseteq> set w" by (rule set_remove1_subset)
  show ?thesis
    using Some r
    by (cases pair) (auto simp add: pocketPair_def allBodies_def Let_def Composite_remove_single
        split: option.splits if_splits dest: notin_set_remove1)
qed

lemma collisionStart_allBodies: "set (allBodies (collisionStart pairs g)) \<subseteq> set (allBodies g)"
proof (induction pairs arbitrary: g)
  case Nil
  show ?case by (simp add: collisionStart_def)
next
  case (Cons p ps)
  have "set (allBodies (collisionStart ps (pocketPair p g))) \<subseteq> set (allBodies (pocketPair p g))"
    by (rule Cons.IH)
  also have "\<dots> \<subseteq> set (allBodies g)" by (rule pocketPair_allBodies)
  finally show ?case by (simp add: collisionStart_def)
qed

lemma runAction_allBodies: "set (allBodies (runAction P a g)) \<subseteq> set (allBodies g)"
proof (cases a)
  case FrictionPass
  then show ?thesis by (simp add: allBodies_def frictionPass_engineRef)
next
  case PocketHandler
  then show ?thesis
    using collisionStart_allBodies by (simp split: option.splits)
next
  case Integrate
  then show ?thesis by (simp add: allBodies_def split: option.splits)
next
  case ResolveCollisions
  then show ?thesis by (simp add: allBodies_def split: option.splits)
qed

lemma tick_allBodies: "set (allBodies (tick P g)) \<subseteq> set (allBodies g)"
proof -
  have "set (allBodies (fold (runAction P) as g)) \<subseteq> set (allBodies g)" for as
  proof (induction as arbitrary: g)
    case Nil
    show ?case by simp
  next
    case (Cons a as)
    have "set (allBodies (fold (runAction P) as (runAction P a g))) \<subseteq> set (allBodies (runAction P a g))"
      by (rule Cons.IH)
    also have "\<dots> \<subseteq> set (allBodies g)" by (rule runAction_allBodies)
    finally show ?case by simp
  qed
  then show ?thesis by (simp add: tick_def)
qed

lemma onMouseDown_engineRef: "engineRef (onMouseDown pos g) = engineRef g"
  by (simp add: onMouseDown_def Let_def split: option.splits)

lemma onMouseMove_engineRef: "engineRef (onMouseMove pos g) = engineRef g"
  by (simp add: onMouseMove_def Let_def split: option.splits)

lemma onMouseUp_engineRef: "engineRef (onMouseUp pos g) = engineRef g"
  by (simp add: onMouseUp_def Let_def split: option.splits)

lemma applyPhysicsSettings_engineRef: "engineRef (applyPhysicsSettings fAir rf dn g) = engineRef g"
  by (simp add: applyPhysicsSettings_def split: option.splits)

lemma resetCueBall_allBodies:
  "i \<notin> set (allBodies g) \<Longrightarrow> cueBallRef g \<noteq> Some i \<Longrightarrow> i \<notin> set (allBodies (resetCueBall g))"
  by (auto simp add: resetCueBall_def allBodies_def Let_def Composite_get_def Composite_add_def
      split: option.splits)

lemma pocketPair_cueBallRef: "cueBallRef (pocketPair pair g) = cueBallRef g"
  by (cases pair) (simp add: pocketPair_def Let_def split: option.splits)

lemma collisionStart_cueBallRef: "cueBallRef (collisionStart pairs g) = cueBallRef g"
  unfolding collisionStart_def
  by (induction pairs arbitrary: g) (simp_all add: pocketPair_cueBallRef)

lemma runAction_cueBallRef: "cueBallRef (runAction P a g) = cueBallRef g"
  by (cases a)
    (simp_all add: frictionPass_def collisionStart_cueBallRef split: option.splits)

lemma tick_cueBallRef: "cueBallRef (tick P g) = cueBallRef g"
proof -
  have "cueBallRef (fold (runAction P) as g) = cueBallRef g" for as
    by (induction as arbitrary: g) (simp_all add: runAction_cueBallRef)
  then show ?thesis by (simp add: tick_def)
qed

lemma handle_cueBallRef: "\<not> isResetGame e \<Longrightarrow> cueBallRef (handle e g) = cueBallRef g"
  by (cases e)
    (simp_all add: tick_cueBallRef onMouseDown_def onMouseMove_def onMouseUp_def
      applyPhysicsSettings_def resetCueBall_def Let_def split: option.splits)

lemma handle_allBodies:
  assumes "\<not> isResetGame e" and "e \<noteq> ResetCueBall"
  shows "set (allBodies (handle e g)) \<subseteq> set (allBodies g)"
proof (cases e)
  case (Tick P)
  then show ?thesis by (simp add: tick_allBodies)
next
  case ResetCueBall
  with assms(2) show ?thesis by simp
next
  case (ResetGame a)
  with assms(1) show ?thesis by simp
qed (simp_all add: allBodies_def onMouseDown_engineRef
      onMouseMove_engineRef onMouseUp_engineRef applyPhysicsSettings_engineRef)

lemma handle_keeps_out:
  assumes "i \<notin> set (allBodies g)" and "\<not> isResetGame e"
    and "e = ResetCueBall \<longrightarrow> cueBallRef g \<noteq> Some i"
  shows "i \<notin> set (allBodies (handle e g))"
proof (cases "e = ResetCueBall")
  case True
  with assms(1,3) show ?thesis by (simp add: resetCueBall_allBodies)
next
  case False
  with assms(1,2) handle_allBodies [of e g] show ?thesis by blast
qed

lemma run_keeps_out:
  "i \<notin> set (allBodies g) \<Longrightarrow> \<forall>e \<in> set es. \<not> isResetGame e \<Longrightarrow>
   cueBallRef g = Some i \<longrightarrow> ResetCueBall \<notin> set es \<Longrightarrow>
   i \<notin> set (allBodies (run es g))"
proof (induction es arbitrary: g)
  case Nil
  then show ?case by (simp add: run_def)
next
  case (Cons e es)
  have e: "\<not> isResetGame e" using Cons.prems(2) by simp
  have "e = ResetCueBall \<longrightarrow> cueBallRef g \<noteq> Some i" using Cons.prems(3) by auto
  with Cons.prems(1) e have out: "i \<notin> set (allBodies (handle e g))"
    by (rule handle_keeps_out)
  have ref: "cueBallRef (handle e g) = cueBallRef g" using e by (rule handle_cueBallRef)
  have "i \<notin> set (allBodies (run es (handle e g)))"
  proof (rule Cons.IH [OF out])
    show "\<forall>e \<in> set es. \<not> isResetGame e" using Cons.prems(2) by simp
    show "cueBallRef (handle e g) = Some i \<longrightarrow> ResetCueBall \<notin> set es"
      unfolding ref using Cons.prems(3) by simp
  qed
  then show ?case by (simp add: run_def)
qed

text \<open>
  C7. A body that is out of the world, as it is after its pocket contact, stays out under
  every sequence of ticks (friction pass, integration, further pocket contacts, collision
  response), pointer events, physics settings and calls of \<open>resetCueBall\<close>, as long as
  \<open>resetGame\<close> is not called and, if the body is the cue ball, \<open>resetCueBall\<close> is not called
  either: \<open>resetCueBall\<close> can bring back the cue ball and nothing else.
\<close>

theorem removed_body_stays_out:
  assumes "i \<notin> set (allBodies g)"
    and "\<forall>e \<in> set es. \<not> isResetGame e"
    and "cueBallRef g = Some i \<longrightarrow> ResetCueBall \<notin> set es"
  shows "i \<notin> set (allBodies (run es g))"
  using assms by (rule run_keeps_out)

lemma potted_red_7:
  "pocketPair (0, 2) exampleGame =
     exampleGame\<lparr>engineRef := Some [0, 1, 3], pottedBalls := [''red-7'']\<rparr>"
proof -
  have l: "label (heap exampleGame 0) = ''pocket-0''"
    by (simp add: exampleGame_def allocate_def createBall_def)
  have p: "pottedBalls exampleGame = []" by (simp add: exampleGame_def)
  show ?thesis
    using exampleGame_engineRef exampleGame_heap_2 l p
    by (simp add: pocketPair_def Let_def startsWith_def createBall_def Composite_remove_single)
qed

lemma potted_cue:
  "pocketPair (1, 0) restGame = restGame\<lparr>engineRef := Some [0, 2, 3], isCueBallPotted := True\<rparr>"
  using restGame_engineRef restGame_heap
  by (simp add: pocketPair_def Let_def startsWith_def createBall_def Composite_remove_single)

theorem removed_body_stays_out_witness:
  "2 \<notin> set (allBodies (pocketPair (0, 2) exampleGame)) \<and>
   cueBallRef (pocketPair (0, 2) exampleGame) = Some 1 \<and>
   \<not> isResetGame (Tick stillPhysics) \<and> \<not> isResetGame (MouseDown (305, 300)) \<and>
   \<not> isResetGame (MouseMove (200, 300)) \<and> \<not> isResetGame (MouseUp (200, 300)) \<and>
   \<not> isResetGame (SetGlobalPhysics 0.01 0.001 0.005) \<and> \<not> isResetGame ResetCueBall \<and>
   2 \<notin> set (allBodies (run exampleEvents (pocketPair (0, 2) exampleGame))) \<and>
   1 \<notin> set (allBodies (pocketPair (1, 0) restGame)) \<and>
   cueBallRef (pocketPair (1, 0) restGame) = Some 1 \<and>
   1 \<notin> set (allBodies (run [Tick stillPhysics, MouseDown (305, 300), MouseUp (200, 300)]
                          (pocketPair (1, 0) restGame)))"
proof -
  have h1: "2 \<notin> set (allBodies (pocketPair (0, 2) exampleGame))"
    unfolding potted_red_7 by (simp add: allBodies_def)
  have c: "cueBallRef (pocketPair (0, 2) exampleGame) = Some 1"
    unfolding potted_red_7 by (simp add: exampleGame_def)
  have h2: "\<forall>e \<in> set exampleEvents. \<not> isResetGame e"
    by (simp add: exampleEvents_def)
  have h3: "cueBallRef (pocketPair (0, 2) exampleGame) = Some 2 \<longrightarrow>
              ResetCueBall \<notin> set exampleEvents"
    unfolding c by simp
  have k1: "1 \<notin> set (allBodies (pocketPair (1, 0) restGame))"
    unfolding potted_cue by (simp add: allBodies_def)
  have d: "cueBallRef (pocketPair (1, 0) restGame) = Some 1"
    unfolding potted_cue by (simp add: restGame_def exampleGame_def)
  have k2: "\<forall>e \<in> set [Tick stillPhysics, MouseDown (305, 300), MouseUp (200, 300)].
              \<not> isResetGame e"
    by simp
  have k3: "cueBallRef (pocketPair (1, 0) restGame) = Some 1 \<longrightarrow>
              ResetCueBall \<notin> set [Tick stillPhysics, MouseDown (305, 300), MouseUp (200, 300)]"
    by simp
  from removed_body_stays_out [OF h1 h2 h3] removed_body_stays_out [OF k1 k2 k3] h1 c k1 d
  show ?thesis by simp
qed

section \<open>Coming to rest\<close>


























section \<open>Potting a ball\<close>

lemma pocketPair_heap: "heap (pocketPair pair g) = heap g"
  by (cases pair) (simp add: pocketPair_def Let_def split: option.splits)

lemma collisionStart_heap: "heap (collisionStart pairs g) = heap g"
  unfolding collisionStart_def
  by (induction pairs arbitrary: g) (simp_all add: pocketPair_heap)

lemma collisionStart_append:
  "collisionStart (xs @ ys) g = collisionStart ys (collisionStart xs g)"
  by (simp add: collisionStart_def)

lemma collisionStart_single: "collisionStart [pair] g = pocketPair pair g"
  by (simp add: collisionStart_def)

lemma pocketPair_world:
  assumes "engineRef g = Some w" and "distinct w"
  shows "\<exists>w'. engineRef (pocketPair pair g) = Some w' \<and> distinct w'"
  using assms
  by (cases pair) (simp add: pocketPair_def Let_def Composite_remove_single split: option.splits)

lemma collisionStart_world:
  "engineRef g = Some w \<Longrightarrow> distinct w \<Longrightarrow>
   \<exists>w'. engineRef (collisionStart pairs g) = Some w' \<and> distinct w'"
proof (induction pairs arbitrary: g w)
  case Nil
  then show ?case by (simp add: collisionStart_def)
next
  case (Cons p ps)
  from pocketPair_world [OF Cons.prems] obtain w1
    where "engineRef (pocketPair p g) = Some w1" and "distinct w1" by blast
  from Cons.IH [OF this] show ?case by (simp add: collisionStart_def)
qed

lemma pocketPair_potted: "\<exists>rest. pottedBalls (pocketPair pair g) = pottedBalls g @ rest"
  by (cases pair) (simp add: pocketPair_def Let_def split: option.splits)

lemma collisionStart_potted: "\<exists>rest. pottedBalls (collisionStart pairs g) = pottedBalls g @ rest"
proof (induction pairs arbitrary: g)
  case Nil
  show ?case by (simp add: collisionStart_def)
next
  case (Cons p ps)
  obtain r1 where r1: "pottedBalls (pocketPair p g) = pottedBalls g @ r1"
    using pocketPair_potted by blast
  obtain r2 where "pottedBalls (collisionStart ps (pocketPair p g)) = pottedBalls (pocketPair p g) @ r2"
    using Cons.IH by blast
  with r1 show ?case by (simp add: collisionStart_def)
qed

lemma pocketPair_flag: "isCueBallPotted g \<Longrightarrow> isCueBallPotted (pocketPair pair g)"
  by (cases pair) (simp add: pocketPair_def Let_def split: option.splits)

lemma collisionStart_flag: "isCueBallPotted g \<Longrightarrow> isCueBallPotted (collisionStart pairs g)"
  unfolding collisionStart_def
  by (induction pairs arbitrary: g) (simp_all add: pocketPair_flag)

text \<open>A pair without a pocket, such as two balls or a ball and a cushion, is passed over.\<close>

lemma pocketPair_ignores:
  "\<not> startsWith (label (heap g a)) ''pocket-'' \<Longrightarrow>
   \<not> startsWith (label (heap g b)) ''pocket-'' \<Longrightarrow> pocketPair (a, b) g = g"
  by (simp add: pocketPair_def split: option.splits)

lemma pocketPair_effect:
  assumes "engineRef g = Some w"
    and "startsWith (label (heap g pocket)) ''pocket-''"
    and "\<not> startsWith (label (heap g ball)) ''pocket-''"
    and "\<not> isStatic (heap g ball)"
    and "pair = (pocket, ball) \<or> pair = (ball, pocket)"
  shows "pocketPair pair g =
           (if label (heap g ball) = ''cue''
            then g\<lparr>engineRef := Some (remove1 ball w), isCueBallPotted := True\<rparr>
            else g\<lparr>engineRef := Some (remove1 ball w),
                   pottedBalls := pottedBalls g @ [label (heap g ball)]\<rparr>)"
  using assms(5)
proof
  assume "pair = (pocket, ball)"
  then show ?thesis
    using assms(1,2,4) by (simp add: pocketPair_def Let_def Composite_remove_single)
next
  assume "pair = (ball, pocket)"
  then show ?thesis
    using assms(1,2,3,4) by (simp add: pocketPair_def Let_def Composite_remove_single)
qed

text \<open>
  C6. The \<^verbatim>\<open>collisionStart\<close> handler goes through the pairs of an event in order. For a
  pair, in either order, of a pocket (a body whose label starts with \<^verbatim>\<open>pocket-\<close>) and a
  non-static body that is not itself a pocket, at any place in the event (after the pairs
  \<open>earlier\<close> and before the pairs \<open>later\<close>): handling the pair takes the body out of the
  world; if its label is \<^verbatim>\<open>cue\<close>, the cue-ball-in-hand flag becomes true and the potted
  sequence is unchanged; otherwise its label is appended at the end of the potted sequence
  and the flag is unchanged. The rest of the event does not undo this: at the end of the
  handler the body is still out, the flag still set, the label still in its place. No body
  is changed.
\<close>

theorem pocket_contact:
  assumes "engineRef g = Some w" and "distinct w"
    and "startsWith (label (heap g pocket)) ''pocket-''"
    and "\<not> startsWith (label (heap g ball)) ''pocket-''"
    and "\<not> isStatic (heap g ball)"
    and "pair = (pocket, ball) \<or> pair = (ball, pocket)"
  shows "(let g0 = collisionStart earlier g;
              g1 = collisionStart (earlier @ [pair]) g;
              g2 = collisionStart (earlier @ pair # later) g
          in allBodies g1 = remove1 ball (allBodies g0) \<and>
             ball \<notin> set (allBodies g1) \<and> ball \<notin> set (allBodies g2) \<and>
             heap g1 = heap g \<and> heap g2 = heap g \<and>
             (if label (heap g ball) = ''cue''
              then isCueBallPotted g1 \<and> pottedBalls g1 = pottedBalls g0 \<and>
                   isCueBallPotted g2
              else pottedBalls g1 = pottedBalls g0 @ [label (heap g ball)] \<and>
                   isCueBallPotted g1 = isCueBallPotted g0 \<and>
                   (\<exists>rest. pottedBalls g2 = pottedBalls g0 @ label (heap g ball) # rest)))"
proof -
  let ?g0 = "collisionStart earlier g"
  let ?g1 = "collisionStart (earlier @ [pair]) g"
  let ?g2 = "collisionStart (earlier @ pair # later) g"
  let ?l = "label (heap g ball)"
  obtain w0 where w0: "engineRef ?g0 = Some w0" and d0: "distinct w0"
    using collisionStart_world [OF assms(1,2)] by blast
  have h0: "heap ?g0 = heap g" by (rule collisionStart_heap)
  have g1: "?g1 = pocketPair pair ?g0"
    by (simp add: collisionStart_append collisionStart_single)
  have g2: "?g2 = collisionStart later ?g1"
    using collisionStart_append [of "earlier @ [pair]" later g] by simp
  have eff: "?g1 =
           (if ?l = ''cue''
            then ?g0\<lparr>engineRef := Some (remove1 ball w0), isCueBallPotted := True\<rparr>
            else ?g0\<lparr>engineRef := Some (remove1 ball w0),
                   pottedBalls := pottedBalls ?g0 @ [?l]\<rparr>)"
    unfolding g1 using pocketPair_effect [of ?g0 w0 pocket ball pair] w0 assms(3,4,5,6)
    by (simp add: h0)
  have a0: "allBodies ?g0 = w0" using w0 by (simp add: allBodies_def)
  have a1: "allBodies ?g1 = remove1 ball (allBodies ?g0)"
    unfolding a0 by (subst eff) (simp add: allBodies_def)
  have out1: "ball \<notin> set (allBodies ?g1)"
    unfolding a1 a0 using d0 by simp
  have out2: "ball \<notin> set (allBodies ?g2)"
    unfolding g2 using out1 collisionStart_allBodies [of later ?g1] by blast
  have hp1: "heap ?g1 = heap g" and hp2: "heap ?g2 = heap g"
    by (rule collisionStart_heap)+
  have rest: "if ?l = ''cue''
              then isCueBallPotted ?g1 \<and> pottedBalls ?g1 = pottedBalls ?g0 \<and>
                   isCueBallPotted ?g2
              else pottedBalls ?g1 = pottedBalls ?g0 @ [?l] \<and>
                   isCueBallPotted ?g1 = isCueBallPotted ?g0 \<and>
                   (\<exists>rest. pottedBalls ?g2 = pottedBalls ?g0 @ ?l # rest)"
  proof (cases "?l = ''cue''")
    case True
    have f1: "isCueBallPotted ?g1" and p1: "pottedBalls ?g1 = pottedBalls ?g0"
      using True by (subst eff, simp)+
    have "isCueBallPotted ?g2" unfolding g2 using f1 by (rule collisionStart_flag)
    with True f1 p1 show ?thesis by simp
  next
    case False
    have p1: "pottedBalls ?g1 = pottedBalls ?g0 @ [?l]"
      and f1: "isCueBallPotted ?g1 = isCueBallPotted ?g0"
      using False by (subst eff, simp)+
    obtain r where "pottedBalls ?g2 = pottedBalls ?g1 @ r"
      unfolding g2 using collisionStart_potted by blast
    then have "pottedBalls ?g2 = pottedBalls ?g0 @ ?l # r" unfolding p1 by simp
    then have "\<exists>rest. pottedBalls ?g2 = pottedBalls ?g0 @ ?l # rest" by blast
    with False p1 f1 show ?thesis by simp
  qed
  from a1 out1 out2 hp1 hp2 rest show ?thesis unfolding Let_def by blast
qed

lemma exampleGame_labels:
  "label (heap exampleGame 0) = ''pocket-0''" "label (heap exampleGame 1) = ''cue''"
  "label (heap exampleGame 2) = ''red-7''" "label (heap exampleGame 3) = ''blue''"
  by (simp_all add: exampleGame_def allocate_def createBall_def)

lemma exampleGame_ball_ball: "collisionStart [(2, 3)] exampleGame = exampleGame"
  unfolding collisionStart_single
  by (rule pocketPair_ignores) (simp_all add: exampleGame_labels startsWith_def)

theorem pocket_contact_witness:
  "engineRef exampleGame = Some [0, 1, 2, 3] \<and> distinct [0, 1, 2, 3 :: nat] \<and>
   startsWith (label (heap exampleGame 0)) ''pocket-'' \<and>
   \<not> startsWith (label (heap exampleGame 2)) ''pocket-'' \<and>
   \<not> isStatic (heap exampleGame 2) \<and>
   allBodies (collisionStart [(0, 2)] exampleGame) = [0, 1, 3] \<and>
   pottedBalls (collisionStart [(0, 2)] exampleGame) = [''red-7''] \<and>
   isCueBallPotted (collisionStart [(0, 2)] exampleGame) = False \<and>
   \<not> startsWith (label (heap exampleGame 1)) ''pocket-'' \<and>
   \<not> isStatic (heap exampleGame 1) \<and>
   allBodies (collisionStart [(2, 3), (0, 2), (1, 0)] exampleGame) = [0, 3] \<and>
   pottedBalls (collisionStart [(2, 3), (0, 2), (1, 0)] exampleGame) = [''red-7''] \<and>
   isCueBallPotted (collisionStart [(2, 3), (0, 2), (1, 0)] exampleGame) \<and>
   1 \<notin> set (allBodies (collisionStart [(2, 3), (0, 2), (1, 0), (3, 2)] exampleGame)) \<and>
   isCueBallPotted (collisionStart [(2, 3), (0, 2), (1, 0), (3, 2)] exampleGame)"
proof -
  have h1: "engineRef exampleGame = Some [0, 1, 2, 3]" by (rule exampleGame_engineRef)
  have h2: "distinct [0, 1, 2, 3 :: nat]" by simp
  have h3: "startsWith (label (heap exampleGame 0)) ''pocket-''"
    by (simp add: exampleGame_labels startsWith_def)
  have l: "label (heap exampleGame 2) = ''red-7''" by (rule exampleGame_labels)
  have h4: "\<not> startsWith (label (heap exampleGame 2)) ''pocket-''"
    unfolding l by (simp add: startsWith_def)
  have h5: "\<not> isStatic (heap exampleGame 2)"
    by (simp add: exampleGame_heap_2 createBall_def)
  have h6: "(0, 2) = (0 :: nat, 2 :: nat) \<or> (0, 2) = (2 :: nat, 0 :: nat)" by simp
  have e0: "collisionStart [] exampleGame = exampleGame" by (simp add: collisionStart_def)
  have a0: "allBodies exampleGame = [0, 1, 2, 3]" using h1 by (simp add: allBodies_def)
  have p0: "pottedBalls exampleGame = []" and c0: "isCueBallPotted exampleGame = False"
    by (simp_all add: exampleGame_def)
  note t = pocket_contact [OF h1 h2 h3 h4 h5 h6, of "[]" "[]", unfolded Let_def l]
  from t have a: "allBodies (collisionStart [(0, 2)] exampleGame) = [0, 1, 3] \<and>
      pottedBalls (collisionStart [(0, 2)] exampleGame) = [''red-7''] \<and>
      isCueBallPotted (collisionStart [(0, 2)] exampleGame) = False"
    by (simp add: e0 a0 p0 c0)
  have lc: "label (heap exampleGame 1) = ''cue''" by (rule exampleGame_labels)
  have k4: "\<not> startsWith (label (heap exampleGame 1)) ''pocket-''"
    unfolding lc by (simp add: startsWith_def)
  have k5: "\<not> isStatic (heap exampleGame 1)"
    by (simp add: exampleGame_def allocate_def createBall_def)
  have k6: "(1, 0) = (0 :: nat, 1 :: nat) \<or> (1, 0) = (1 :: nat, 0 :: nat)" by simp
  have e1: "collisionStart [(2, 3), (0, 2)] exampleGame = collisionStart [(0, 2)] exampleGame"
    using collisionStart_append [of "[(2, 3)]" "[(0, 2)]" exampleGame]
    by (simp add: exampleGame_ball_ball)
  note u = pocket_contact [OF h1 h2 h3 k4 k5 k6, of "[(2, 3), (0, 2)]" "[(3, 2)]",
      unfolded Let_def lc e1]
  from u a have b: "allBodies (collisionStart [(2, 3), (0, 2), (1, 0)] exampleGame) = [0, 3] \<and>
      pottedBalls (collisionStart [(2, 3), (0, 2), (1, 0)] exampleGame) = [''red-7''] \<and>
      isCueBallPotted (collisionStart [(2, 3), (0, 2), (1, 0)] exampleGame) \<and>
      1 \<notin> set (allBodies (collisionStart [(2, 3), (0, 2), (1, 0), (3, 2)] exampleGame)) \<and>
      isCueBallPotted (collisionStart [(2, 3), (0, 2), (1, 0), (3, 2)] exampleGame)"
    by simp
  from h1 h2 h3 h4 h5 a k4 k5 b show ?thesis by blast
qed

section \<open>Global physics settings\<close>

lemma forEach_idem:
  assumes idem: "\<And>b. f (f b) = f b"
  shows "forEach f ids h i = (if i \<in> set ids then f (h i) else h i)"
proof (induction ids arbitrary: h)
  case Nil
  show ?case by (simp add: forEach_def)
next
  case (Cons a ids)
  have "forEach f (a # ids) h i = forEach f ids (h(a := f (h a))) i"
    by (simp add: forEach_def)
  also have "\<dots> = (if i \<in> set ids then f ((h(a := f (h a))) i) else (h(a := f (h a))) i)"
    by (rule Cons.IH)
  also have "\<dots> = (if i \<in> set (a # ids) then f (h i) else h i)"
    by (simp add: idem)
  finally show ?case .
qed

text \<open>
  C10. \<open>applyPhysicsSettings fAir rf dn\<close> stores \<open>rf\<close> as the rolling-friction value and
  changes nothing else in the state but the bodies. A non-static, non-sensor body of the
  world gets air drag \<open>fAir\<close>, density \<open>dn\<close> and mass \<open>dn\<close> times its area, and keeps every
  other field (position, velocity, angular velocity, restitution, label, ...); every other
  body is unchanged.
\<close>

theorem applyPhysicsSettings_frame:
  assumes "engineRef g = Some w"
  shows "(let g' = applyPhysicsSettings fAir rf dn g
          in g' = g\<lparr>rollingFrictionRef := rf, heap := heap g'\<rparr> \<and>
             (\<forall>i. heap g' i =
                (if i \<in> set w \<and> \<not> isStatic (heap g i) \<and> \<not> isSensor (heap g i)
                 then (heap g i)\<lparr>frictionAir := fAir, density := dn,
                                   mass := dn * area (heap g i)\<rparr>
                 else heap g i)))"
proof -
  let ?f = "\<lambda>b. setDensity (b\<lparr>frictionAir := fAir\<rparr>) dn"
  let ?ids = "filter (\<lambda>i. dynamic (heap g i)) w"
  have idem: "\<And>b. ?f (?f b) = ?f b" by (simp add: setDensity_def)
  have h: "heap (applyPhysicsSettings fAir rf dn g) = forEach ?f ?ids (heap g)"
    using assms by (simp add: applyPhysicsSettings_def)
  have each: "heap (applyPhysicsSettings fAir rf dn g) i =
                (if i \<in> set w \<and> \<not> isStatic (heap g i) \<and> \<not> isSensor (heap g i)
                 then (heap g i)\<lparr>frictionAir := fAir, density := dn,
                                   mass := dn * area (heap g i)\<rparr>
                 else heap g i)" for i
    unfolding h forEach_idem [of ?f, OF idem]
    by (simp add: dynamic_def setDensity_def)
  have rest: "applyPhysicsSettings fAir rf dn g =
                g\<lparr>rollingFrictionRef := rf, heap := heap (applyPhysicsSettings fAir rf dn g)\<rparr>"
    using assms by (simp add: applyPhysicsSettings_def)
  from rest each show ?thesis unfolding Let_def by blast
qed

theorem applyPhysicsSettings_frame_witness:
  "engineRef exampleGame = Some [0, 1, 2, 3] \<and>
   rollingFrictionRef (applyPhysicsSettings 0.01 0.001 0.02 exampleGame) = 0.001 \<and>
   heap (applyPhysicsSettings 0.01 0.001 0.02 exampleGame) 2 =
     (createBall 300 600 300 ''red-7'')
       \<lparr>velocity := (3, 4), angularVelocity := 1, frictionAir := 0.01, density := 0.02, mass := 6\<rparr> \<and>
   heap (applyPhysicsSettings 0.01 0.001 0.02 exampleGame) 0 = heap exampleGame 0"
proof -
  have h1: "engineRef exampleGame = Some [0, 1, 2, 3]" by (rule exampleGame_engineRef)
  note t = applyPhysicsSettings_frame [OF h1, of "0.01" "0.001" "0.02", unfolded Let_def]
  have p0: "isStatic (heap exampleGame 0)"
    by (simp add: exampleGame_def allocate_def)
  have a: "rollingFrictionRef (applyPhysicsSettings 0.01 0.001 0.02 exampleGame) = 0.001"
    by (subst conjunct1 [OF t]) simp
  have b: "heap (applyPhysicsSettings 0.01 0.001 0.02 exampleGame) 2 =
     (createBall 300 600 300 ''red-7'')
       \<lparr>velocity := (3, 4), angularVelocity := 1, frictionAir := 0.01, density := 0.02, mass := 6\<rparr>"
    unfolding conjunct2 [OF t, rule_format, of 2]
    by (simp add: exampleGame_heap_2 createBall_def)
  have c: "heap (applyPhysicsSettings 0.01 0.001 0.02 exampleGame) 0 = heap exampleGame 0"
    unfolding conjunct2 [OF t, rule_format, of 0] using p0 by simp
  from h1 a b c show ?thesis by blast
qed

section \<open>Replacing the cue ball\<close>

lemma resetCueBall_idem: "resetCueBall (resetCueBall g) = resetCueBall g"
proof (cases "cueBallRef g")
  case None
  then show ?thesis by (simp add: resetCueBall_def)
next
  case c: (Some c)
  show ?thesis
  proof (cases "engineRef g")
    case None
    with c show ?thesis by (simp add: resetCueBall_def)
  next
    case (Some w)
    with c show ?thesis
      by (simp add: resetCueBall_def Let_def Composite_get_def Composite_add_def
          setPosition_def setVelocity_def setAngularVelocity_def)
  qed
qed

text \<open>
  C8. With the engine and the cue ball in place, \<open>resetCueBall\<close> puts the cue ball at
  \<open>(CUSHION + 0.25 * TABLE_WIDTH, CUSHION + TABLE_HEIGHT / 2) = (340, 340)\<close> with zero
  linear and angular velocity, appends it to the world exactly when it is not in it
  (leaving the world as it is otherwise), clears the cue-ball-in-hand flag and touches
  nothing else; a second call changes nothing.
\<close>

theorem resetCueBall_idempotent:
  assumes "engineRef g = Some w" and "cueBallRef g = Some c"
  shows "(let g' = resetCueBall g
          in g' = g\<lparr>heap := (heap g)(c := (heap g c)
                        \<lparr>position := (CUSHION + 0.25 * TABLE_WIDTH, CUSHION + TABLE_HEIGHT / 2),
                         velocity := (0, 0), angularVelocity := 0\<rparr>),
                     engineRef := Some (if c \<in> set w then w else w @ [c]),
                     isCueBallPotted := False\<rparr> \<and>
             position (heap g' c) = (340, 340) \<and>
             velocity (heap g' c) = (0, 0) \<and>
             angularVelocity (heap g' c) = 0 \<and>
             engineRef g' = Some (if c \<in> set w then w else w @ [c]) \<and>
             isCueBallPotted g' = False \<and>
             resetCueBall g' = g')"
proof -
  have eq: "resetCueBall g = g\<lparr>heap := (heap g)(c := (heap g c)
                        \<lparr>position := (CUSHION + 0.25 * TABLE_WIDTH, CUSHION + TABLE_HEIGHT / 2),
                         velocity := (0, 0), angularVelocity := 0\<rparr>),
                     engineRef := Some (if c \<in> set w then w else w @ [c]),
                     isCueBallPotted := False\<rparr>"
    using assms
    by (simp add: resetCueBall_def Let_def Composite_get_def Composite_add_def
          setPosition_def setVelocity_def setAngularVelocity_def)
  have p: "position (heap (resetCueBall g) c) = (340, 340)"
    unfolding eq by (simp add: CUSHION_def TABLE_WIDTH_def TABLE_HEIGHT_def)
  have v: "velocity (heap (resetCueBall g) c) = (0, 0)"
    and a: "angularVelocity (heap (resetCueBall g) c) = 0"
    and e: "engineRef (resetCueBall g) = Some (if c \<in> set w then w else w @ [c])"
    and f: "isCueBallPotted (resetCueBall g) = False"
    unfolding eq by simp_all
  from eq p v a e f resetCueBall_idem [of g] show ?thesis
    unfolding Let_def by blast
qed

theorem resetCueBall_idempotent_witness:
  "engineRef restGame = Some [0, 1, 2, 3] \<and> cueBallRef restGame = Some 1 \<and>
   engineRef (resetCueBall restGame) = Some [0, 1, 2, 3] \<and>
   position (heap (resetCueBall restGame) 1) = (340, 340) \<and>
   engineRef (pocketPair (1, 0) restGame) = Some [0, 2, 3] \<and>
   cueBallRef (pocketPair (1, 0) restGame) = Some 1 \<and>
   isCueBallPotted (pocketPair (1, 0) restGame) \<and>
   engineRef (resetCueBall (pocketPair (1, 0) restGame)) = Some [0, 2, 3, 1] \<and>
   \<not> isCueBallPotted (resetCueBall (pocketPair (1, 0) restGame)) \<and>
   resetCueBall (resetCueBall (pocketPair (1, 0) restGame)) = resetCueBall (pocketPair (1, 0) restGame)"
proof -
  have h1: "engineRef restGame = Some [0, 1, 2, 3]" by (rule restGame_engineRef)
  have h2: "cueBallRef restGame = Some 1" by (simp add: restGame_def exampleGame_def)
  note t = resetCueBall_idempotent [OF h1 h2, unfolded Let_def]
  have a: "engineRef (resetCueBall restGame) = Some [0, 1, 2, 3]"
    using t by simp
  have b: "position (heap (resetCueBall restGame) 1) = (340, 340)"
    using t by blast
  have pot: "pocketPair (1, 0) restGame =
               restGame\<lparr>engineRef := Some [0, 2, 3], isCueBallPotted := True\<rparr>"
    using h1 restGame_heap
    by (simp add: pocketPair_def Let_def startsWith_def createBall_def Composite_remove_single)
  have k1: "engineRef (pocketPair (1, 0) restGame) = Some [0, 2, 3]"
    and k2: "cueBallRef (pocketPair (1, 0) restGame) = Some 1"
    and k3: "isCueBallPotted (pocketPair (1, 0) restGame)"
    unfolding pot using h2 by simp_all
  note u = resetCueBall_idempotent [OF k1 k2, unfolded Let_def]
  have c: "engineRef (resetCueBall (pocketPair (1, 0) restGame)) = Some [0, 2, 3, 1]"
    using u by simp
  have d: "\<not> isCueBallPotted (resetCueBall (pocketPair (1, 0) restGame))"
    using u by blast
  have e: "resetCueBall (resetCueBall (pocketPair (1, 0) restGame)) =
             resetCueBall (pocketPair (1, 0) restGame)"
    using u by blast
  from h1 h2 a b k1 k2 k3 c d e show ?thesis by blast
qed

section \<open>Racking the balls again\<close>

lemma remove_filtered_aux:
  "\<forall>y \<in> set ys. \<not> P y \<Longrightarrow>
   fold remove1 (filter P xs) (ys @ xs) = ys @ filter (\<lambda>x. \<not> P x) xs"
proof (induction xs arbitrary: ys)
  case Nil
  show ?case by simp
next
  case (Cons x xs)
  show ?case
  proof (cases "P x")
    case True
    with Cons.prems have "x \<notin> set ys" by blast
    then have "remove1 x (ys @ x # xs) = ys @ xs" by (simp add: remove1_append)
    with True Cons.IH [OF Cons.prems] show ?thesis by simp
  next
    case False
    with Cons.prems have "\<forall>y \<in> set (ys @ [x]). \<not> P y" by simp
    from Cons.IH [OF this] False show ?thesis by simp
  qed
qed

lemma Composite_remove_filter:
  "Composite_remove w (filter P w) = filter (\<lambda>x. \<not> P x) w"
  using remove_filtered_aux [of "[]" P w] by (simp add: Composite_remove_def)

lemma allocate_old: "i < n \<Longrightarrow> allocate bs n h i = h i"
  by (simp add: allocate_def)

lemma allocate_new: "k < length bs \<Longrightarrow> allocate bs n h (n + k) = bs ! k"
  by (simp add: allocate_def)

lemma allocate_map: "map (\<lambda>i. f (allocate bs n h i)) [n..<n + length bs] = map f bs"
  by (rule nth_equalityI) (simp_all add: allocate_new)

lemma createBalls_eq:
  "createBalls a =
     (createBall a 340 340 ''cue'',
      map (\<lambda>(px, py, l). createBall a px py l)
        [(856, 340, ''red-0''),
         (856 + 43 * sqrt 3 / 4, 1317 / 4, ''red-1''),
         (856 + 43 * sqrt 3 / 4, 1403 / 4, ''red-2''),
         (856 + 43 * sqrt 3 / 2, 637 / 2, ''red-3''),
         (856 + 43 * sqrt 3 / 2, 340, ''red-4''),
         (856 + 43 * sqrt 3 / 2, 723 / 2, ''red-5''),
         (856 + 129 * sqrt 3 / 4, 1231 / 4, ''red-6''),
         (856 + 129 * sqrt 3 / 4, 1317 / 4, ''red-7''),
         (856 + 129 * sqrt 3 / 4, 1403 / 4, ''red-8''),
         (856 + 129 * sqrt 3 / 4, 1489 / 4, ''red-9''),
         (856 + 43 * sqrt 3, 297, ''red-10''),
         (856 + 43 * sqrt 3, 637 / 2, ''red-11''),
         (856 + 43 * sqrt 3, 340, ''red-12''),
         (856 + 43 * sqrt 3, 723 / 2, ''red-13''),
         (856 + 43 * sqrt 3, 383, ''red-14''),
         (280, 208, ''yellow''),
         (280, 472, ''green''),
         (280, 340, ''brown''),
         (640, 340, ''blue''),
         (3295 / 4, 340, ''pink''),
         (1108, 340, ''black'')])"
  by (simp add: createBalls_def Let_def toString.simps digit_def upt_rec enumerate_eq_zip
      CUSHION_def TABLE_WIDTH_def TABLE_HEIGHT_def BALL_R_def cos_30)

lemma rack_length: "length (fst (createBalls a) # snd (createBalls a)) = 22"
  by (simp add: createBalls_eq)

lemma rack_labels:
  "map label (fst (createBalls a) # snd (createBalls a)) =
     [''cue'', ''red-0'', ''red-1'', ''red-2'', ''red-3'', ''red-4'', ''red-5'', ''red-6'',
                 ''red-7'', ''red-8'', ''red-9'', ''red-10'', ''red-11'', ''red-12'', ''red-13'',
                 ''red-14'', ''yellow'', ''green'', ''brown'', ''blue'', ''pink'', ''black'']"
  by (simp add: createBalls_eq createBall_def)

lemma rack_positions:
  "map position (fst (createBalls a) # snd (createBalls a)) =
     [(340, 340),
                 (856, 340),
                 (856 + 43 * sqrt 3 / 4, 1317 / 4), (856 + 43 * sqrt 3 / 4, 1403 / 4),
                 (856 + 43 * sqrt 3 / 2, 637 / 2), (856 + 43 * sqrt 3 / 2, 340),
                 (856 + 43 * sqrt 3 / 2, 723 / 2),
                 (856 + 129 * sqrt 3 / 4, 1231 / 4), (856 + 129 * sqrt 3 / 4, 1317 / 4),
                 (856 + 129 * sqrt 3 / 4, 1403 / 4), (856 + 129 * sqrt 3 / 4, 1489 / 4),
                 (856 + 43 * sqrt 3, 297), (856 + 43 * sqrt 3, 637 / 2),
                 (856 + 43 * sqrt 3, 340), (856 + 43 * sqrt 3, 723 / 2),
                 (856 + 43 * sqrt 3, 383),
                 (280, 208), (280, 472), (280, 340), (640, 340), (3295 / 4, 340),
                 (1108, 340)]"
  by (simp add: createBalls_eq createBall_def)

lemma rack_dynamic:
  "\<forall>b \<in> set (fst (createBalls a) # snd (createBalls a)).
     \<not> isStatic b \<and> \<not> isSensor b \<and> velocity b = (0, 0) \<and> angularVelocity b = 0"
  by (simp add: createBalls_eq createBall_def)

lemma resetGame_eq:
  assumes "engineRef g = Some w"
  shows "resetGame a g =
           g\<lparr>heap := allocate (fst (createBalls a) # snd (createBalls a)) (nextId g) (heap g),
             nextId := nextId g + 22,
             engineRef := Some (filter (\<lambda>i. \<not> dynamic (heap g i)) w @ [nextId g..<nextId g + 22]),
             cueBallRef := Some (nextId g),
             allBallsRef := [nextId g..<nextId g + 22],
             pottedBalls := [],
             isCueBallPotted := False\<rparr>"
  using assms
  by (simp only: resetGame_def Let_def split_beta rack_length Composite_remove_filter
      Composite_add_def option.case)

text \<open>
  C9. In every state with an engine (whatever the balls are doing), \<open>resetGame\<close> takes every
  non-static, non-sensor body out of the world, keeps the static bodies and the sensors in
  their order and leaves every old body untouched, and appends 22 fresh balls: the cue ball
  at (340, 340), \<^verbatim>\<open>red-0\<close> to \<^verbatim>\<open>red-14\<close> in the triangle and the six colours on their
  spots, all at rest. These 22 are then exactly the non-static, non-sensor bodies of the
  world. The potted sequence is empty, the cue-ball-in-hand flag false, and the cue-ball ref
  is the new cue ball.
\<close>

theorem resetGame_reracks:
  assumes "engineRef g = Some w" and "\<forall>i \<in> set w. i < nextId g"
  shows "(let g' = resetGame a g; n = nextId g; new = [n..<n + 22]
          in engineRef g' =
               Some (filter (\<lambda>i. isStatic (heap g i) \<or> isSensor (heap g i)) w @ new) \<and>
             (\<forall>i \<in> set w. heap g' i = heap g i) \<and>
             (\<forall>i \<in> set w. \<not> isStatic (heap g i) \<and> \<not> isSensor (heap g i) \<longrightarrow>
                  i \<notin> set (allBodies g')) \<and>
             filter (\<lambda>i. \<not> isStatic (heap g' i) \<and> \<not> isSensor (heap g' i)) (allBodies g') = new \<and>
             map (\<lambda>i. label (heap g' i)) new =
               [''cue'', ''red-0'', ''red-1'', ''red-2'', ''red-3'', ''red-4'', ''red-5'', ''red-6'',
                 ''red-7'', ''red-8'', ''red-9'', ''red-10'', ''red-11'', ''red-12'', ''red-13'',
                 ''red-14'', ''yellow'', ''green'', ''brown'', ''blue'', ''pink'', ''black''] \<and>
             map (\<lambda>i. position (heap g' i)) new =
               [(340, 340),
                 (856, 340),
                 (856 + 43 * sqrt 3 / 4, 1317 / 4), (856 + 43 * sqrt 3 / 4, 1403 / 4),
                 (856 + 43 * sqrt 3 / 2, 637 / 2), (856 + 43 * sqrt 3 / 2, 340),
                 (856 + 43 * sqrt 3 / 2, 723 / 2),
                 (856 + 129 * sqrt 3 / 4, 1231 / 4), (856 + 129 * sqrt 3 / 4, 1317 / 4),
                 (856 + 129 * sqrt 3 / 4, 1403 / 4), (856 + 129 * sqrt 3 / 4, 1489 / 4),
                 (856 + 43 * sqrt 3, 297), (856 + 43 * sqrt 3, 637 / 2),
                 (856 + 43 * sqrt 3, 340), (856 + 43 * sqrt 3, 723 / 2),
                 (856 + 43 * sqrt 3, 383),
                 (280, 208), (280, 472), (280, 340), (640, 340), (3295 / 4, 340),
                 (1108, 340)] \<and>
             (\<forall>i \<in> set new. velocity (heap g' i) = (0, 0) \<and> angularVelocity (heap g' i) = 0) \<and>
             cueBallRef g' = Some n \<and> pottedBalls g' = [] \<and> isCueBallPotted g' = False)"
proof -
  let ?g' = "resetGame a g" and ?n = "nextId g"
  let ?new = "[?n..<?n + 22]"
  let ?bs = "fst (createBalls a) # snd (createBalls a)"
  let ?keep = "filter (\<lambda>i. isStatic (heap g i) \<or> isSensor (heap g i)) w"
  note eq = resetGame_eq [OF assms(1), of a]
  have len: "length ?bs = 22" by (rule rack_length)
  have hp: "heap ?g' = allocate ?bs ?n (heap g)" unfolding eq by simp
  have keep_eq: "filter (\<lambda>i. \<not> dynamic (heap g i)) w = ?keep"
    by (simp add: dynamic_def)
  have world: "engineRef ?g' = Some (?keep @ ?new)"
    unfolding eq keep_eq by simp
  have all: "allBodies ?g' = ?keep @ ?new"
    using world by (simp add: allBodies_def)
  have old: "\<forall>i \<in> set w. heap ?g' i = heap g i"
    using assms(2) by (simp add: hp allocate_old)
  have newb: "heap ?g' i \<in> set ?bs" if "i \<in> set ?new" for i
  proof -
    from that have "?n \<le> i" and "i - ?n < length ?bs" using len by auto
    then have "heap ?g' i = ?bs ! (i - ?n)" using allocate_new [of "i - ?n" ?bs ?n "heap g"]
      by (simp add: hp)
    with \<open>i - ?n < length ?bs\<close> show ?thesis by (metis nth_mem)
  qed
  have gone: "\<forall>i \<in> set w. \<not> isStatic (heap g i) \<and> \<not> isSensor (heap g i) \<longrightarrow>
                  i \<notin> set (allBodies ?g')"
    using assms(2) unfolding all by auto
  have f1: "filter (\<lambda>i. \<not> isStatic (heap ?g' i) \<and> \<not> isSensor (heap ?g' i)) ?keep = []"
    using old by (auto simp add: filter_empty_conv)
  have dynnew: "\<forall>i \<in> set ?new. \<not> isStatic (heap ?g' i) \<and> \<not> isSensor (heap ?g' i)"
    using newb rack_dynamic [of a] by blast
  have f2: "filter (\<lambda>i. \<not> isStatic (heap ?g' i) \<and> \<not> isSensor (heap ?g' i)) ?new = ?new"
    by (rule filter_True) (use dynnew in blast)
  have dyn: "filter (\<lambda>i. \<not> isStatic (heap ?g' i) \<and> \<not> isSensor (heap ?g' i)) (allBodies ?g') = ?new"
    unfolding all filter_append f1 f2 by simp
  have lab: "map (\<lambda>i. label (heap ?g' i)) ?new =
               [''cue'', ''red-0'', ''red-1'', ''red-2'', ''red-3'', ''red-4'', ''red-5'', ''red-6'',
                 ''red-7'', ''red-8'', ''red-9'', ''red-10'', ''red-11'', ''red-12'', ''red-13'',
                 ''red-14'', ''yellow'', ''green'', ''brown'', ''blue'', ''pink'', ''black'']"
    using allocate_map [of label ?bs ?n "heap g"] unfolding hp len rack_labels .
  have pos: "map (\<lambda>i. position (heap ?g' i)) ?new =
               [(340, 340),
                 (856, 340),
                 (856 + 43 * sqrt 3 / 4, 1317 / 4), (856 + 43 * sqrt 3 / 4, 1403 / 4),
                 (856 + 43 * sqrt 3 / 2, 637 / 2), (856 + 43 * sqrt 3 / 2, 340),
                 (856 + 43 * sqrt 3 / 2, 723 / 2),
                 (856 + 129 * sqrt 3 / 4, 1231 / 4), (856 + 129 * sqrt 3 / 4, 1317 / 4),
                 (856 + 129 * sqrt 3 / 4, 1403 / 4), (856 + 129 * sqrt 3 / 4, 1489 / 4),
                 (856 + 43 * sqrt 3, 297), (856 + 43 * sqrt 3, 637 / 2),
                 (856 + 43 * sqrt 3, 340), (856 + 43 * sqrt 3, 723 / 2),
                 (856 + 43 * sqrt 3, 383),
                 (280, 208), (280, 472), (280, 340), (640, 340), (3295 / 4, 340),
                 (1108, 340)]"
    using allocate_map [of position ?bs ?n "heap g"] unfolding hp len rack_positions .
  have still: "\<forall>i \<in> set ?new. velocity (heap ?g' i) = (0, 0) \<and> angularVelocity (heap ?g' i) = 0"
    using newb rack_dynamic [of a] by blast
  have flags: "cueBallRef ?g' = Some ?n \<and> pottedBalls ?g' = [] \<and> isCueBallPotted ?g' = False"
    unfolding eq by simp
  from world old gone dyn lab pos still flags show ?thesis
    unfolding Let_def by blast
qed

lemma exampleGame_statics:
  "filter (\<lambda>i. isStatic (heap exampleGame i) \<or> isSensor (heap exampleGame i)) [0, 1, 2, 3] = [0]"
  by (simp add: exampleGame_def allocate_def createBall_def)

theorem resetGame_reracks_witness:
  "engineRef exampleGame = Some [0, 1, 2, 3] \<and>
   0 < nextId exampleGame \<and> 1 < nextId exampleGame \<and> 2 < nextId exampleGame \<and>
   3 < nextId exampleGame \<and>
   engineRef (resetGame 300 exampleGame) = Some (0 # [4..<26]) \<and>
   cueBallRef (resetGame 300 exampleGame) = Some 4 \<and>
   pottedBalls (resetGame 300 exampleGame) = [] \<and>
   \<not> isCueBallPotted (resetGame 300 exampleGame)"
proof -
  have h1: "engineRef exampleGame = Some [0, 1, 2, 3]" by (rule exampleGame_engineRef)
  have n: "nextId exampleGame = 4" by (simp add: exampleGame_def)
  have h2: "\<forall>i \<in> set [0, 1, 2, 3 :: nat]. i < nextId exampleGame" unfolding n by simp
  note t = resetGame_reracks [OF h1 h2, of 300, unfolded Let_def exampleGame_statics n]
  have a: "engineRef (resetGame 300 exampleGame) = Some (0 # [4..<26])"
    using conjunct1 [OF t] by simp
  have b: "cueBallRef (resetGame 300 exampleGame) = Some 4 \<and>
           pottedBalls (resetGame 300 exampleGame) = [] \<and>
           \<not> isCueBallPotted (resetGame 300 exampleGame)"
    using t by blast
  from h1 n a b show ?thesis by simp
qed

section \<open>Reachable states\<close>

lemma wellFormed_mount: "wellFormed (mount a statics)"
  by (simp add: wellFormed_def mount_def Let_def split_beta list_all_iff)

lemma wellFormed_same:
  "engineRef g' = engineRef g \<Longrightarrow> cueBallRef g' = cueBallRef g \<Longrightarrow> nextId g' = nextId g \<Longrightarrow>
   wellFormed g \<Longrightarrow> wellFormed g'"
  by (auto simp add: wellFormed_def split: option.splits)

lemma frictionPass_refs:
  "cueBallRef (frictionPass g) = cueBallRef g" "nextId (frictionPass g) = nextId g"
  by (simp_all add: frictionPass_def split: option.splits)

lemma wellFormed_pocketPair: "wellFormed g \<Longrightarrow> wellFormed (pocketPair pair g)"
  by (cases pair)
    (auto simp add: wellFormed_def pocketPair_def Let_def Composite_remove_single list_all_iff
      split: option.splits if_splits dest: notin_set_remove1)

lemma wellFormed_collisionStart: "wellFormed g \<Longrightarrow> wellFormed (collisionStart pairs g)"
  unfolding collisionStart_def
  by (induction pairs arbitrary: g) (simp_all add: wellFormed_pocketPair)

lemma wellFormed_runAction: "wellFormed g \<Longrightarrow> wellFormed (runAction P a g)"
proof (cases a)
  case FrictionPass
  assume "wellFormed g"
  then show ?thesis
    using FrictionPass wellFormed_same [of "frictionPass g" g]
    by (simp add: frictionPass_engineRef frictionPass_refs)
next
  case PocketHandler
  assume "wellFormed g"
  then show ?thesis
    using PocketHandler by (simp add: wellFormed_collisionStart split: option.splits)
next
  case Integrate
  assume "wellFormed g"
  then show ?thesis
    using Integrate by (auto simp add: wellFormed_def split: option.splits)
next
  case ResolveCollisions
  assume "wellFormed g"
  then show ?thesis
    using ResolveCollisions by (auto simp add: wellFormed_def split: option.splits)
qed

lemma wellFormed_tick: "wellFormed g \<Longrightarrow> wellFormed (tick P g)"
proof -
  have "wellFormed g \<Longrightarrow> wellFormed (fold (runAction P) as g)" for as
    by (induction as arbitrary: g) (simp_all add: wellFormed_runAction)
  then show "wellFormed g \<Longrightarrow> wellFormed (tick P g)" by (simp add: tick_def)
qed

lemma wellFormed_resetCueBall: "wellFormed g \<Longrightarrow> wellFormed (resetCueBall g)"
  by (auto simp add: wellFormed_def resetCueBall_def Let_def Composite_get_def Composite_add_def
      list_all_iff split: option.splits)

lemma wellFormed_resetGame: "wellFormed g \<Longrightarrow> wellFormed (resetGame a g)"
proof (cases "engineRef g")
  case None
  then show "wellFormed g \<Longrightarrow> wellFormed (resetGame a g)" by (simp add: resetGame_def)
next
  case (Some w)
  assume "wellFormed g"
  with Some have "distinct w" and "\<forall>i \<in> set w. i < nextId g"
    by (simp_all add: wellFormed_def list_all_iff)
  then show "wellFormed (resetGame a g)"
    unfolding resetGame_eq [OF Some]
    by (auto simp add: wellFormed_def list_all_iff)
qed

lemma wellFormed_handle: "wellFormed g \<Longrightarrow> wellFormed (handle e g)"
proof (cases e)
  case (Tick P)
  then show "wellFormed g \<Longrightarrow> wellFormed (handle e g)" by (simp add: wellFormed_tick)
next
  case (MouseDown pos)
  then show "wellFormed g \<Longrightarrow> wellFormed (handle e g)"
    by (auto simp add: wellFormed_def onMouseDown_def Let_def split: option.splits)
next
  case (MouseMove pos)
  then show "wellFormed g \<Longrightarrow> wellFormed (handle e g)"
    by (auto simp add: wellFormed_def onMouseMove_def Let_def split: option.splits)
next
  case (MouseUp pos)
  then show "wellFormed g \<Longrightarrow> wellFormed (handle e g)"
    by (auto simp add: wellFormed_def onMouseUp_def Let_def split: option.splits)
next
  case (SetGlobalPhysics fAir rf dn)
  then show "wellFormed g \<Longrightarrow> wellFormed (handle e g)"
    by (auto simp add: wellFormed_def applyPhysicsSettings_def split: option.splits)
next
  case ResetCueBall
  then show "wellFormed g \<Longrightarrow> wellFormed (handle e g)" by (simp add: wellFormed_resetCueBall)
next
  case (ResetGame a)
  then show "wellFormed g \<Longrightarrow> wellFormed (handle e g)" by (simp add: wellFormed_resetGame)
qed

text \<open>Every state reached from the mounted component is well formed.\<close>

lemma wellFormed_run: "wellFormed g \<Longrightarrow> wellFormed (run es g)"
  unfolding run_def by (induction es arbitrary: g) (simp_all add: wellFormed_handle)

lemma wellFormed_reachable: "wellFormed (run es (mount a statics))"
  by (rule wellFormed_run) (rule wellFormed_mount)

lemma wellFormed_world:
  "wellFormed g \<Longrightarrow> engineRef g = Some w \<Longrightarrow> distinct w \<and> (\<forall>i \<in> set w. i < nextId g)"
  by (simp add: wellFormed_def list_all_iff)

end
